theory Spec2Isabelle
  imports Complex_Main "HOL-Library.AList"
begin

section \<open>Data model\<close>

text \<open>
  The development embeds the in-memory storage (\<^verbatim>\<open>MemStorage\<close>), the SSE session
  manager (\<^verbatim>\<open>SSEManager\<close>), the chart service's event emission and the chart generation
  route of the server. Field names follow the source; a field whose name is shared by two
  TypeScript types, or clashes with a HOL constant, carries a short prefix.

  Modelling conventions:
  \<^item> a JavaScript \<^verbatim>\<open>Map\<close> whose iteration order matters is an association list in
    insertion order (\<open>AList.update\<close> replaces the value of an existing key in place and
    appends a new key at the end, as \<^verbatim>\<open>Map.set\<close> does); the event history map is only
    looked up by key and is a partial function;
  \<^item> \<^verbatim>\<open>null\<close> and \<^verbatim>\<open>undefined\<close> are both \<open>None\<close>;
  \<^item> a \<^verbatim>\<open>Date\<close> is its millisecond count; each operation takes the clock reading
    \<open>now\<close> as an argument (one reading per call);
  \<^item> a JSON number is a rational; the id counters are unbounded naturals (the source's
    doubles are exact far beyond any number of events a process can hold);
  \<^item> an express \<^verbatim>\<open>Response\<close> is an object in a store of streams, addressed by a handle,
    so that two sessions holding different streams, and a stream that is no longer
    registered, can be told apart.
\<close>

datatype json =
    JNull
  | JBool bool
  | JNum rat
  | JStr string
  | JArr "json list"
  | JObj "(string \<times> json) list"

record Point =
  pt_x :: string
  pt_y :: rat

record Indicator =
  ind_type :: string
  ind_period :: "rat option"
  ind_color :: "string option"
  ind_overbought :: "rat option"
  ind_oversold :: "rat option"

record Drawing =
  drw_type :: string
  drw_points :: "Point list"
  drw_color :: "string option"
  drw_width :: "rat option"

text \<open>\<^verbatim>\<open>ChartConfig\<close>, the output type of \<^verbatim>\<open>chartConfigSchema\<close> (shared/schema.ts).\<close>

record ChartConfig =
  cfg_symbol :: string
  cfg_interval :: string
  cfg_chartType :: string
  cfg_width :: rat
  cfg_height :: rat
  cfg_indicators :: "Indicator list"
  cfg_drawings :: "Drawing list"
  cfg_theme :: string
  cfg_showVolume :: bool
  cfg_showGrid :: bool
  cfg_timezone :: string

text \<open>\<^verbatim>\<open>ChartRequest\<close>, a row of \<^verbatim>\<open>chart_requests\<close> (shared/schema.ts).\<close>

record ChartRequest =
  cr_id :: nat
  requestId :: string
  symbol :: string
  interval :: string
  chartType :: string
  width :: rat
  height :: rat
  indicators :: "Indicator list option"
  drawings :: "Drawing list option"
  theme :: string
  showVolume :: bool
  showGrid :: bool
  timezone :: string
  status :: string
  chartUrl :: "string option"
  base64Data :: "string option"
  errorMessage :: "string option"
  processingTime :: "int option"
  createdAt :: nat
  completedAt :: "nat option"

text \<open>
  \<^verbatim>\<open>Partial<ChartRequest>\<close>: the properties an update object carries, in the order they
  are written. A property that is present with the value \<^verbatim>\<open>undefined\<close> (as
  \<^verbatim>\<open>chartUrl: result.url\<close> is for a PNG response) is present with \<open>None\<close>.
\<close>

datatype ChartRequest_property =
    Set_id nat
  | Set_requestId string
  | Set_symbol string
  | Set_interval string
  | Set_chartType string
  | Set_width rat
  | Set_height rat
  | Set_indicators "Indicator list option"
  | Set_drawings "Drawing list option"
  | Set_theme string
  | Set_showVolume bool
  | Set_showGrid bool
  | Set_timezone string
  | Set_status string
  | Set_chartUrl "string option"
  | Set_base64Data "string option"
  | Set_errorMessage "string option"
  | Set_processingTime "int option"
  | Set_createdAt nat
  | Set_completedAt "nat option"

text \<open>\<^verbatim>\<open>InsertSseEvent\<close> and \<^verbatim>\<open>SseEvent\<close>, a row of \<^verbatim>\<open>sse_events\<close>.\<close>

record InsertSseEvent =
  ins_requestId :: string
  ins_eventType :: string
  ins_message :: string

record SseEvent =
  ev_id :: nat
  ev_requestId :: string
  ev_eventType :: string
  ev_message :: string
  ev_timestamp :: nat

text \<open>The object \<^verbatim>\<open>eventData\<close> that \<^verbatim>\<open>sendEvent\<close> serialises into the data line.\<close>

record EventData =
  ed_type :: string
  ed_message :: string
  ed_requestId :: string
  ed_timestamp :: nat
  ed_data :: "json option"

text \<open>
  What is written to a response stream, chunk by chunk:
  \<open>EventLine t\<close> is the text \<^verbatim>\<open>event: t\n\<close>, \<open>DataLine d\<close> is
  \<^verbatim>\<open>data: <JSON of d>\n\n\<close>, \<open>ConnectedLine c t\<close> is the data line of the initial
  frame of \<^verbatim>\<open>handleSSEConnection\<close>, \<open>Heartbeat\<close> is \<^verbatim>\<open>: heartbeat\n\n\<close>.
\<close>

datatype chunk =
    EventLine string
  | DataLine EventData
  | ConnectedLine string nat
  | Heartbeat

text \<open>
  A response stream: the chunks \<^verbatim>\<open>write\<close> has accepted, whether \<^verbatim>\<open>end()\<close> was called,
  and whether \<^verbatim>\<open>write\<close> throws (the failure \<^verbatim>\<open>sendEvent\<close> catches; it is a property
  of the connection, decided by the environment).
\<close>

record Response =
  written :: "chunk list"
  ended :: bool
  writeThrows :: bool

record SSEClient =
  client_id :: string
  response :: nat
  lastEventId :: "string option"

text \<open>
  The state of the process: the fields of the \<^verbatim>\<open>storage\<close> singleton that the chart
  routes use, the \<^verbatim>\<open>clients\<close> map of the \<^verbatim>\<open>sseManager\<close> singleton, and the store of
  response streams.
\<close>

record state =
  chartRequests :: "(string \<times> ChartRequest) list"
  sseEvents :: "string \<rightharpoonup> SseEvent list"
  currentChartId :: nat
  currentEventId :: nat
  clients :: "(string \<times> SSEClient) list"
  responses :: "nat \<Rightarrow> Response"

definition new_Response :: Response where
  "new_Response = \<lparr>written = [], ended = False, writeThrows = False\<rparr>"

text \<open>The constructors of \<^verbatim>\<open>MemStorage\<close> and \<^verbatim>\<open>SSEManager\<close>: empty maps, counters at 1.\<close>

definition init_state :: state where
  "init_state =
     \<lparr>chartRequests = [], sseEvents = Map.empty, currentChartId = 1, currentEventId = 1,
      clients = [], responses = (\<lambda>_. new_Response)\<rparr>"

section \<open>Text helpers\<close>

text \<open>Decimal rendering of a number in a template literal.\<close>

definition digit_char :: "nat \<Rightarrow> char" where
  "digit_char d = ''0123456789'' ! d"

function show_nat :: "nat \<Rightarrow> string" where
  "show_nat n = (if n < 10 then [digit_char n] else show_nat (n div 10) @ [digit_char (n mod 10)])"
  by pat_completeness auto
termination
  by (relation "measure id") auto

declare show_nat.simps [simp del]

text \<open>\<^verbatim>\<open>String.prototype.toUpperCase\<close> on ASCII text (the event types are ASCII words).\<close>

definition upper_char :: "char \<Rightarrow> char" where
  "upper_char c =
     (case map_of (zip ''abcdefghijklmnopqrstuvwxyz'' ''ABCDEFGHIJKLMNOPQRSTUVWXYZ'') c of
        Some u \<Rightarrow> u
      | None \<Rightarrow> c)"

definition toUpperCase :: "string \<Rightarrow> string" where
  "toUpperCase str = map upper_char str"

section \<open>MemStorage (server/storage.ts)\<close>

text \<open>
  \<^verbatim>\<open>createChartRequest\<close>: takes the next id, builds the request id
  \<^verbatim>\<open>req_<Date.now()>_<id>\<close>, spreads the configuration into a new \<^verbatim>\<open>pending\<close> record
  and stores it under its request id.
\<close>

definition createChartRequest :: "ChartConfig \<Rightarrow> nat \<Rightarrow> state \<Rightarrow> ChartRequest \<times> state" where
  "createChartRequest insertRequest now s =
     (let i = currentChartId s;
          rid = ''req_'' @ show_nat now @ ''_'' @ show_nat i;
          request = \<lparr>cr_id = i, requestId = rid,
                     symbol = cfg_symbol insertRequest,
                     interval = cfg_interval insertRequest,
                     chartType = cfg_chartType insertRequest,
                     width = cfg_width insertRequest,
                     height = cfg_height insertRequest,
                     indicators = Some (cfg_indicators insertRequest),
                     drawings = Some (cfg_drawings insertRequest),
                     theme = cfg_theme insertRequest,
                     showVolume = cfg_showVolume insertRequest,
                     showGrid = cfg_showGrid insertRequest,
                     timezone = cfg_timezone insertRequest,
                     status = ''pending'',
                     chartUrl = None, base64Data = None, errorMessage = None,
                     processingTime = None, createdAt = now, completedAt = None\<rparr>
      in (request,
          s\<lparr>currentChartId := i + 1,
            chartRequests := AList.update rid request (chartRequests s)\<rparr>))"

definition getChartRequest :: "string \<Rightarrow> state \<Rightarrow> ChartRequest option" where
  "getChartRequest rid s = map_of (chartRequests s) rid"

text \<open>The spread \<^verbatim>\<open>{ ...existing, ...updates }\<close>: every property of the update overrides.\<close>

fun set_property :: "ChartRequest \<Rightarrow> ChartRequest_property \<Rightarrow> ChartRequest" where
  "set_property r (Set_id v) = r\<lparr>cr_id := v\<rparr>"
| "set_property r (Set_requestId v) = r\<lparr>requestId := v\<rparr>"
| "set_property r (Set_symbol v) = r\<lparr>symbol := v\<rparr>"
| "set_property r (Set_interval v) = r\<lparr>interval := v\<rparr>"
| "set_property r (Set_chartType v) = r\<lparr>chartType := v\<rparr>"
| "set_property r (Set_width v) = r\<lparr>width := v\<rparr>"
| "set_property r (Set_height v) = r\<lparr>height := v\<rparr>"
| "set_property r (Set_indicators v) = r\<lparr>indicators := v\<rparr>"
| "set_property r (Set_drawings v) = r\<lparr>drawings := v\<rparr>"
| "set_property r (Set_theme v) = r\<lparr>theme := v\<rparr>"
| "set_property r (Set_showVolume v) = r\<lparr>showVolume := v\<rparr>"
| "set_property r (Set_showGrid v) = r\<lparr>showGrid := v\<rparr>"
| "set_property r (Set_timezone v) = r\<lparr>timezone := v\<rparr>"
| "set_property r (Set_status v) = r\<lparr>status := v\<rparr>"
| "set_property r (Set_chartUrl v) = r\<lparr>chartUrl := v\<rparr>"
| "set_property r (Set_base64Data v) = r\<lparr>base64Data := v\<rparr>"
| "set_property r (Set_errorMessage v) = r\<lparr>errorMessage := v\<rparr>"
| "set_property r (Set_processingTime v) = r\<lparr>processingTime := v\<rparr>"
| "set_property r (Set_createdAt v) = r\<lparr>createdAt := v\<rparr>"
| "set_property r (Set_completedAt v) = r\<lparr>completedAt := v\<rparr>"

definition spread :: "ChartRequest \<Rightarrow> ChartRequest_property list \<Rightarrow> ChartRequest" where
  "spread existing updates = foldl set_property existing updates"

text \<open>
  \<^verbatim>\<open>updateChartRequest\<close>: \<^verbatim>\<open>undefined\<close> when the request id is unknown; otherwise the
  merged record is stored under the request id it was looked up with, and returned.
\<close>

definition updateChartRequest ::
  "string \<Rightarrow> ChartRequest_property list \<Rightarrow> state \<Rightarrow> ChartRequest option \<times> state" where
  "updateChartRequest rid updates s =
     (case map_of (chartRequests s) rid of
        None \<Rightarrow> (None, s)
      | Some existing \<Rightarrow>
          (let updated = spread existing updates
           in (Some updated, s\<lparr>chartRequests := AList.update rid updated (chartRequests s)\<rparr>)))"

text \<open>
  \<^verbatim>\<open>Array.prototype.slice(0, limit)\<close>: a negative end counts from the end of the array.
\<close>

definition slice0 :: "int \<Rightarrow> 'a list \<Rightarrow> 'a list" where
  "slice0 limit xs =
     (if limit < 0 then take (nat (int (length xs) + limit)) xs else take (nat limit) xs)"

text \<open>
  \<^verbatim>\<open>getRecentChartRequests\<close>: the values of the map in insertion order, sorted with the
  comparator \<^verbatim>\<open>b.createdAt - a.createdAt\<close> (\<^verbatim>\<open>Array.prototype.sort\<close> is a stable sort, so
  it is the insertion sort on the key \<open>- createdAt\<close>), cut by \<^verbatim>\<open>slice(0, limit)\<close>.
\<close>

definition getRecentChartRequests :: "int \<Rightarrow> state \<Rightarrow> ChartRequest list" where
  "getRecentChartRequests limit s =
     slice0 limit (sort_key (\<lambda>r. - int (createdAt r)) (map snd (chartRequests s)))"

text \<open>
  \<^verbatim>\<open>createSseEvent\<close>: takes the next event id and pushes the event onto the array of its
  request id, creating the array when the request id has none.
\<close>

definition createSseEvent :: "InsertSseEvent \<Rightarrow> nat \<Rightarrow> state \<Rightarrow> SseEvent \<times> state" where
  "createSseEvent insertEvent now s =
     (let i = currentEventId s;
          event = \<lparr>ev_id = i, ev_requestId = ins_requestId insertEvent,
                   ev_eventType = ins_eventType insertEvent,
                   ev_message = ins_message insertEvent, ev_timestamp = now\<rparr>;
          existing = (case sseEvents s (ins_requestId insertEvent) of
                        None \<Rightarrow> [] | Some evs \<Rightarrow> evs)
      in (event,
          s\<lparr>currentEventId := i + 1,
            sseEvents := (sseEvents s)(ins_requestId insertEvent \<mapsto> existing @ [event])\<rparr>))"

definition getSseEvents :: "string \<Rightarrow> state \<Rightarrow> SseEvent list" where
  "getSseEvents rid s = (case sseEvents s rid of None \<Rightarrow> [] | Some evs \<Rightarrow> evs)"

section \<open>SSEManager (server/sse.ts)\<close>

text \<open>\<^verbatim>\<open>res.write(chunk)\<close> and \<^verbatim>\<open>res.end()\<close> on the stream with handle \<open>h\<close>.\<close>

definition write_chunks :: "nat \<Rightarrow> chunk list \<Rightarrow> state \<Rightarrow> state" where
  "write_chunks h cs s =
     s\<lparr>responses := (responses s)(h := (responses s h)\<lparr>written := written (responses s h) @ cs\<rparr>)\<rparr>"

definition end_response :: "nat \<Rightarrow> state \<Rightarrow> state" where
  "end_response h s = s\<lparr>responses := (responses s)(h := (responses s h)\<lparr>ended := True\<rparr>)\<rparr>"

text \<open>
  \<^verbatim>\<open>removeClient\<close>: when the client is registered, ends its stream and deletes the entry;
  nothing otherwise.
\<close>

definition removeClient :: "string \<Rightarrow> state \<Rightarrow> state" where
  "removeClient clientId s =
     (case map_of (clients s) clientId of
        None \<Rightarrow> s
      | Some client \<Rightarrow>
          (end_response (response client) s)\<lparr>clients := AList.delete clientId (clients s)\<rparr>)"

text \<open>
  \<^verbatim>\<open>sendEvent\<close>: returns at once when the client is not registered. Otherwise it writes
  the event line and the data line; when the request id is not \<^verbatim>\<open>system\<close> it then stores
  the event (type in upper case) in the history. A write that throws is caught: the
  client is removed and nothing is stored.
\<close>

definition sendEvent ::
  "string \<Rightarrow> string \<Rightarrow> string \<Rightarrow> string \<Rightarrow> json option \<Rightarrow> nat \<Rightarrow> state \<Rightarrow> state" where
  "sendEvent clientId eventType msg rid payload now s =
     (case map_of (clients s) clientId of
        None \<Rightarrow> s
      | Some client \<Rightarrow>
          (let eventData = \<lparr>ed_type = eventType, ed_message = msg, ed_requestId = rid,
                            ed_timestamp = now, ed_data = payload\<rparr>
           in if writeThrows (responses s (response client)) then removeClient clientId s
              else
                (let s1 = write_chunks (response client) [EventLine eventType, DataLine eventData] s
                 in if rid \<noteq> ''system''
                    then snd (createSseEvent
                                \<lparr>ins_requestId = rid, ins_eventType = toUpperCase eventType,
                                 ins_message = msg\<rparr> now s1)
                    else s1)))"

text \<open>
  \<^verbatim>\<open>broadcast\<close>: \<^verbatim>\<open>clients.forEach\<close> calls \<^verbatim>\<open>sendEvent\<close> for every entry, in insertion
  order. A call can only delete the entry it is visiting, so iterating over the keys as
  they were at the start visits the same entries.
\<close>

definition broadcast :: "string \<Rightarrow> string \<Rightarrow> string \<Rightarrow> json option \<Rightarrow> nat \<Rightarrow> state \<Rightarrow> state" where
  "broadcast eventType msg rid payload now s =
     foldl (\<lambda>st clientId. sendEvent clientId eventType msg rid payload now st) s
       (map fst (clients s))"

definition getClientCount :: "state \<Rightarrow> nat" where
  "getClientCount s = length (clients s)"

text \<open>
  \<^verbatim>\<open>addClient\<close>: stores the client under its id (replacing an entry with the same id)
  and sends the \<^verbatim>\<open>connection\<close> event with the request id \<^verbatim>\<open>system\<close>. The close listener
  and the heartbeat timer it installs run later, as \<open>on_close\<close> and \<open>heartbeat\<close>.
\<close>

definition addClient :: "string \<Rightarrow> nat \<Rightarrow> string option \<Rightarrow> nat \<Rightarrow> state \<Rightarrow> state" where
  "addClient clientId res lastEvent now s =
     (let client = \<lparr>client_id = clientId, response = res, lastEventId = lastEvent\<rparr>;
          s1 = s\<lparr>clients := AList.update clientId client (clients s)\<rparr>
      in sendEvent clientId ''connection'' ''SSE connection established'' ''system'' None now s1)"

text \<open>The listener \<^verbatim>\<open>res.on('close', ...)\<close> of a registration with id \<open>clientId\<close>.\<close>

definition on_close :: "string \<Rightarrow> state \<Rightarrow> state" where
  "on_close clientId s = removeClient clientId s"

text \<open>
  One tick of the heartbeat interval of a registration with id \<open>clientId\<close> and stream
  \<open>res\<close>: it writes to its own stream while the id is registered.
\<close>

definition heartbeat :: "string \<Rightarrow> nat \<Rightarrow> state \<Rightarrow> state" where
  "heartbeat clientId res s =
     (if map_of (clients s) clientId \<noteq> None then write_chunks res [Heartbeat] s else s)"

text \<open>
  \<^verbatim>\<open>handleSSEConnection\<close>: the client id is the query parameter, or a generated id when
  the parameter is missing or empty. The handler writes the initial frame to the stream
  itself and then registers the client. A write that throws here is not caught: the
  exception leaves the handler (\<open>None\<close>) and nothing is registered. (The response head
  is not counted among the chunks.)
\<close>

definition handleSSEConnection ::
  "string option \<Rightarrow> string \<Rightarrow> string option \<Rightarrow> nat \<Rightarrow> nat \<Rightarrow> state \<Rightarrow> state option" where
  "handleSSEConnection queryClientId generated lastEvent res now s =
     (let clientId = (case queryClientId of
                        None \<Rightarrow> generated
                      | Some q \<Rightarrow> if q = [] then generated else q)
      in if writeThrows (responses s res) then None
         else Some (addClient clientId res lastEvent now
                      (write_chunks res [EventLine ''connection'', ConnectedLine clientId now] s)))"

section \<open>chartConfigSchema (shared/schema.ts)\<close>

text \<open>
  The zod schema, combinator by combinator. A property of the request body is looked up
  with \<open>map_of\<close>: \<open>None\<close> is a missing property (\<^verbatim>\<open>undefined\<close>). A parser returns
  \<open>None\<close> where zod records an issue.
\<close>

definition z_string :: "json option \<Rightarrow> string option" where
  "z_string v = (case v of Some (JStr t) \<Rightarrow> Some t | _ \<Rightarrow> None)"

definition z_string_min :: "nat \<Rightarrow> json option \<Rightarrow> string option" where
  "z_string_min n v =
     (case z_string v of Some t \<Rightarrow> if n \<le> length t then Some t else None | None \<Rightarrow> None)"

definition z_enum :: "string list \<Rightarrow> json option \<Rightarrow> string option" where
  "z_enum vals v =
     (case v of Some (JStr t) \<Rightarrow> if t \<in> set vals then Some t else None | _ \<Rightarrow> None)"

definition z_number :: "json option \<Rightarrow> rat option" where
  "z_number v = (case v of Some (JNum n) \<Rightarrow> Some n | _ \<Rightarrow> None)"

definition z_number_min_max :: "rat \<Rightarrow> rat \<Rightarrow> json option \<Rightarrow> rat option" where
  "z_number_min_max lo hi v =
     (case z_number v of Some n \<Rightarrow> if lo \<le> n \<and> n \<le> hi then Some n else None | None \<Rightarrow> None)"

definition z_boolean :: "json option \<Rightarrow> bool option" where
  "z_boolean v = (case v of Some (JBool b) \<Rightarrow> Some b | _ \<Rightarrow> None)"

definition z_optional :: "(json option \<Rightarrow> 'a option) \<Rightarrow> json option \<Rightarrow> 'a option option" where
  "z_optional p v = (case v of None \<Rightarrow> Some None | Some _ \<Rightarrow> map_option Some (p v))"

definition z_default :: "'a \<Rightarrow> (json option \<Rightarrow> 'a option) \<Rightarrow> json option \<Rightarrow> 'a option" where
  "z_default d p v = (case v of None \<Rightarrow> Some d | Some _ \<Rightarrow> p v)"

definition z_array :: "(json option \<Rightarrow> 'a option) \<Rightarrow> json option \<Rightarrow> 'a list option" where
  "z_array p v = (case v of Some (JArr xs) \<Rightarrow> those (map (\<lambda>x. p (Some x)) xs) | _ \<Rightarrow> None)"

definition point_schema :: "json option \<Rightarrow> Point option" where
  "point_schema v =
     (case v of
        Some (JObj kvs) \<Rightarrow>
          Option.bind (z_string (map_of kvs ''x'')) (\<lambda>px.
          Option.bind (z_number (map_of kvs ''y'')) (\<lambda>py.
          Some \<lparr>pt_x = px, pt_y = py\<rparr>))
      | _ \<Rightarrow> None)"

definition indicator_schema :: "json option \<Rightarrow> Indicator option" where
  "indicator_schema v =
     (case v of
        Some (JObj kvs) \<Rightarrow>
          Option.bind (z_string (map_of kvs ''type'')) (\<lambda>ty.
          Option.bind (z_optional z_number (map_of kvs ''period'')) (\<lambda>per.
          Option.bind (z_optional z_string (map_of kvs ''color'')) (\<lambda>col.
          Option.bind (z_optional z_number (map_of kvs ''overbought'')) (\<lambda>ob.
          Option.bind (z_optional z_number (map_of kvs ''oversold'')) (\<lambda>os.
          Some \<lparr>ind_type = ty, ind_period = per, ind_color = col,
                ind_overbought = ob, ind_oversold = os\<rparr>)))))
      | _ \<Rightarrow> None)"

definition drawing_schema :: "json option \<Rightarrow> Drawing option" where
  "drawing_schema v =
     (case v of
        Some (JObj kvs) \<Rightarrow>
          Option.bind (z_string (map_of kvs ''type'')) (\<lambda>ty.
          Option.bind (z_array point_schema (map_of kvs ''points'')) (\<lambda>pts.
          Option.bind (z_optional z_string (map_of kvs ''color'')) (\<lambda>col.
          Option.bind (z_optional z_number (map_of kvs ''width'')) (\<lambda>wd.
          Some \<lparr>drw_type = ty, drw_points = pts, drw_color = col, drw_width = wd\<rparr>))))
      | _ \<Rightarrow> None)"

definition intervals :: "string list" where
  "intervals = [''1m'', ''5m'', ''15m'', ''30m'', ''1h'', ''2h'', ''4h'', ''6h'', ''12h'',
                ''1D'', ''1W'', ''1M'']"

definition chartTypes :: "string list" where
  "chartTypes = [''candlestick'', ''line'', ''area'', ''bar'', ''heikin_ashi'',
                 ''hollow_candle'', ''baseline'', ''hi_lo'', ''column'']"

text \<open>
  \<^verbatim>\<open>chartConfigSchema.parse\<close>: the configuration with the defaults filled in, or a
  \<^verbatim>\<open>ZodError\<close>. The error carries the names of the properties with an issue (zod
  reports every one); a body that is not an object is one issue at the root.
\<close>

datatype ZodError = ZodError "string list"

definition chartConfigSchema_parse :: "json \<Rightarrow> ZodError + ChartConfig" where
  "chartConfigSchema_parse body =
     (case body of
        JObj kvs \<Rightarrow>
          (let p_symbol = z_string_min 1 (map_of kvs ''symbol'');
               p_interval = z_enum intervals (map_of kvs ''interval'');
               p_chartType = z_enum chartTypes (map_of kvs ''chartType'');
               p_width = z_default 800 (z_number_min_max 400 2000) (map_of kvs ''width'');
               p_height = z_default 600 (z_number_min_max 300 1500) (map_of kvs ''height'');
               p_indicators =
                 z_default [] (\<lambda>v. Option.bind (z_optional (z_array indicator_schema) v)
                                      (\<lambda>r. case r of None \<Rightarrow> Some [] | Some xs \<Rightarrow> Some xs))
                   (map_of kvs ''indicators'');
               p_drawings =
                 z_default [] (\<lambda>v. Option.bind (z_optional (z_array drawing_schema) v)
                                      (\<lambda>r. case r of None \<Rightarrow> Some [] | Some xs \<Rightarrow> Some xs))
                   (map_of kvs ''drawings'');
               p_theme = z_default ''light'' (z_enum [''light'', ''dark'']) (map_of kvs ''theme'');
               p_showVolume = z_default True z_boolean (map_of kvs ''showVolume'');
               p_showGrid = z_default True z_boolean (map_of kvs ''showGrid'');
               p_timezone = z_default ''America/New_York'' z_string (map_of kvs ''timezone'');
               issues =
                 (if p_symbol = None then [''symbol''] else []) @
                 (if p_interval = None then [''interval''] else []) @
                 (if p_chartType = None then [''chartType''] else []) @
                 (if p_width = None then [''width''] else []) @
                 (if p_height = None then [''height''] else []) @
                 (if p_indicators = None then [''indicators''] else []) @
                 (if p_drawings = None then [''drawings''] else []) @
                 (if p_theme = None then [''theme''] else []) @
                 (if p_showVolume = None then [''showVolume''] else []) @
                 (if p_showGrid = None then [''showGrid''] else []) @
                 (if p_timezone = None then [''timezone''] else [])
           in case (p_symbol, p_interval, p_chartType, p_width, p_height, p_indicators,
                    p_drawings, p_theme, p_showVolume, p_showGrid, p_timezone) of
                (Some sy, Some iv, Some ct, Some wd, Some ht, Some inds, Some drws, Some th,
                 Some sv, Some sg, Some tz) \<Rightarrow>
                  Inr \<lparr>cfg_symbol = sy, cfg_interval = iv, cfg_chartType = ct, cfg_width = wd,
                       cfg_height = ht, cfg_indicators = inds, cfg_drawings = drws,
                       cfg_theme = th, cfg_showVolume = sv, cfg_showGrid = sg,
                       cfg_timezone = tz\<rparr>
              | _ \<Rightarrow> Inl (ZodError issues))
      | _ \<Rightarrow> Inl (ZodError [''(root)'']))"

section \<open>ChartService.generateChart (server/chart-service.ts)\<close>

text \<open>
  \<^verbatim>\<open>if (clientId) sseManager.sendEvent(clientId, ...)\<close>: the client id is the value of
  the \<^verbatim>\<open>x-client-id\<close> header; a missing header and the empty string are falsy.
\<close>

definition sendEvent_if ::
  "string option \<Rightarrow> string \<Rightarrow> string \<Rightarrow> string \<Rightarrow> json option \<Rightarrow> nat \<Rightarrow> state \<Rightarrow> state" where
  "sendEvent_if clientId eventType msg rid payload now s =
     (case clientId of
        None \<Rightarrow> s
      | Some c \<Rightarrow> if c = [] then s else sendEvent c eventType msg rid payload now s)"

record ChartImgResponse =
  res_success :: bool
  res_url :: "string option"
  res_base64 :: "string option"
  res_error :: "string option"
  res_processingTime :: "int option"

text \<open>
  How the upstream call settles, as far as \<^verbatim>\<open>generateChart\<close> tells the cases apart: the
  \<^verbatim>\<open>fetch\<close> rejects (with the message \<^verbatim>\<open>generateChart\<close> derives from the error), the
  response is not ok (status as rendered in the message, and body text), a JSON body
  with its \<^verbatim>\<open>url\<close> and \<^verbatim>\<open>base64\<close> properties, a JSON content type whose body fails to
  parse, a PNG body (as base64 text), or another content type.
\<close>

datatype fetch_outcome =
    Fetch_rejected string
  | Not_ok string string
  | Json_body "string option" "string option"
  | Json_rejected string
  | Png_body string
  | Other_content_type

text \<open>
  \<^verbatim>\<open>generateChart\<close> up to its first \<^verbatim>\<open>await\<close>: the two progress events that precede the
  upstream call. (Building the upstream payload has no effect on the state.)
\<close>

definition generateChart_begin :: "string \<Rightarrow> string option \<Rightarrow> nat \<Rightarrow> state \<Rightarrow> state" where
  "generateChart_begin rid clientId now s =
     (let s1 = sendEvent_if clientId ''progress'' ''Preparing chart request...'' rid None now s
      in sendEvent_if clientId ''progress'' ''Sending request to Chart-IMG API...'' rid None now s1)"

text \<open>The \<^verbatim>\<open>catch\<close> block of \<^verbatim>\<open>generateChart\<close>: the error event and the failure result.\<close>

definition generateChart_catch ::
  "string \<Rightarrow> string \<Rightarrow> string option \<Rightarrow> nat \<Rightarrow> nat \<Rightarrow> state \<Rightarrow> ChartImgResponse \<times> state" where
  "generateChart_catch errMsg rid clientId startTime now s =
     (\<lparr>res_success = False, res_url = None, res_base64 = None, res_error = Some errMsg,
       res_processingTime = Some (int now - int startTime)\<rparr>,
      sendEvent_if clientId ''error'' (''Chart generation failed: '' @ errMsg) rid None now s)"

text \<open>
  The end of the \<^verbatim>\<open>try\<close> block: the success event (with the elapsed seconds as
  \<^verbatim>\<open>toFixed(1)\<close> renders them, \<open>elapsed\<close>) and the result.
\<close>

definition generateChart_success ::
  "string option \<Rightarrow> string option \<Rightarrow> string \<Rightarrow> string option \<Rightarrow> nat \<Rightarrow> nat \<Rightarrow> string \<Rightarrow> state
     \<Rightarrow> ChartImgResponse \<times> state" where
  "generateChart_success url b64 rid clientId startTime now elapsed s =
     (let result = \<lparr>res_success = True, res_url = url, res_base64 = b64, res_error = None,
                    res_processingTime = Some (int now - int startTime)\<rparr>
      in (result,
          sendEvent_if clientId ''success''
            (''Chart generated successfully ('' @ elapsed @ ''s)'') rid
            (Some (JObj [(''chartGenerated'', JBool True),
                         (''processingTime'', JNum (of_int (int now - int startTime)))]))
            now s))"

text \<open>
  \<^verbatim>\<open>generateChart\<close> from the point where the upstream call settles to its return. It
  never rejects: every failure ends in the \<^verbatim>\<open>catch\<close> block. It does not touch the
  storage of chart requests.
\<close>

definition generateChart_resume ::
  "fetch_outcome \<Rightarrow> string \<Rightarrow> string option \<Rightarrow> nat \<Rightarrow> nat \<Rightarrow> string \<Rightarrow> state
     \<Rightarrow> ChartImgResponse \<times> state" where
  "generateChart_resume outcome rid clientId startTime now elapsed s =
     (case outcome of
        Fetch_rejected errMsg \<Rightarrow> generateChart_catch errMsg rid clientId startTime now s
      | Not_ok code body \<Rightarrow>
          generateChart_catch (''Chart-IMG API error: '' @ code @ '' '' @ body)
            rid clientId startTime now s
      | Json_body url b64 \<Rightarrow>
          generateChart_success url b64 rid clientId startTime now elapsed
            (sendEvent_if clientId ''progress'' ''Processing chart data...'' rid None now s)
      | Json_rejected errMsg \<Rightarrow>
          generateChart_catch errMsg rid clientId startTime now
            (sendEvent_if clientId ''progress'' ''Processing chart data...'' rid None now s)
      | Png_body b64 \<Rightarrow>
          generateChart_success None (Some (''data:image/png;base64,'' @ b64))
            rid clientId startTime now elapsed
            (sendEvent_if clientId ''progress'' ''Processing chart data...'' rid None now s)
      | Other_content_type \<Rightarrow>
          generateChart_catch ''Unexpected response format from Chart-IMG API''
            rid clientId startTime now
            (sendEvent_if clientId ''progress'' ''Processing chart data...'' rid None now s))"

text \<open>
  The same part of \<^verbatim>\<open>generateChart\<close>, run by run. After the upstream call has settled,
  \<^verbatim>\<open>generateChart\<close> waits once more for the network, to read the body. What runs before
  that wait is \<open>generateChart_head\<close> (the third progress event, for a response that is
  ok); what runs when the body has been read, up to the return, is
  \<open>generateChart_body\<close>. A rejected call and a content type that is neither JSON nor PNG
  have no second wait: both parts then run in one go.
\<close>

definition generateChart_head :: "fetch_outcome \<Rightarrow> string \<Rightarrow> string option \<Rightarrow> nat \<Rightarrow> state \<Rightarrow> state" where
  "generateChart_head outcome rid clientId now s =
     (case outcome of
        Fetch_rejected errMsg \<Rightarrow> s
      | Not_ok code body \<Rightarrow> s
      | _ \<Rightarrow> sendEvent_if clientId ''progress'' ''Processing chart data...'' rid None now s)"

definition generateChart_body ::
  "fetch_outcome \<Rightarrow> string \<Rightarrow> string option \<Rightarrow> nat \<Rightarrow> nat \<Rightarrow> string \<Rightarrow> state
     \<Rightarrow> ChartImgResponse \<times> state" where
  "generateChart_body outcome rid clientId startTime now elapsed s =
     (case outcome of
        Fetch_rejected errMsg \<Rightarrow> generateChart_catch errMsg rid clientId startTime now s
      | Not_ok code body \<Rightarrow>
          generateChart_catch (''Chart-IMG API error: '' @ code @ '' '' @ body)
            rid clientId startTime now s
      | Json_body url b64 \<Rightarrow> generateChart_success url b64 rid clientId startTime now elapsed s
      | Json_rejected errMsg \<Rightarrow> generateChart_catch errMsg rid clientId startTime now s
      | Png_body b64 \<Rightarrow>
          generateChart_success None (Some (''data:image/png;base64,'' @ b64))
            rid clientId startTime now elapsed s
      | Other_content_type \<Rightarrow>
          generateChart_catch ''Unexpected response format from Chart-IMG API''
            rid clientId startTime now s)"

section \<open>The chart generation route (server/routes.ts)\<close>

datatype http_response =
    Ok_processing string
  | Bad_request "string list"

text \<open>
  The first statements after validation: the request record is created and the initial
  event is sent (routes.ts, lines 20 to 26).
\<close>

definition generate_accept ::
  "ChartConfig \<Rightarrow> string option \<Rightarrow> nat \<Rightarrow> state \<Rightarrow> ChartRequest \<times> state" where
  "generate_accept config clientId now s =
     (let (chartRequest, s1) = createChartRequest config now s
      in (chartRequest,
          sendEvent_if clientId ''request''
            (''Chart generation started for '' @ cfg_symbol config)
            (requestId chartRequest) None now s1))"

text \<open>
  The handler of \<^verbatim>\<open>POST /api/v2/chart/generate\<close> up to its response: validation (a
  \<^verbatim>\<open>ZodError\<close> is answered with status 400 before anything else happens), the request
  record and the initial event, the update to \<^verbatim>\<open>processing\<close>, the start of
  \<^verbatim>\<open>generateChart\<close>, and the response with the request id.
\<close>

definition route_generate :: "json \<Rightarrow> string option \<Rightarrow> nat \<Rightarrow> state \<Rightarrow> http_response \<times> state" where
  "route_generate body clientId now s =
     (case chartConfigSchema_parse body of
        Inl (ZodError issues) \<Rightarrow> (Bad_request issues, s)
      | Inr config \<Rightarrow>
          (let (chartRequest, s2) = generate_accept config clientId now s;
               s3 = snd (updateChartRequest (requestId chartRequest)
                           [Set_status ''processing''] s2);
               s4 = generateChart_begin (requestId chartRequest) clientId now s3
           in (Ok_processing (requestId chartRequest), s4)))"

text \<open>
  The statements of the handler between its first wait (on \<^verbatim>\<open>createChartRequest\<close>) and its
  second (on \<^verbatim>\<open>updateChartRequest\<close>): the initial event and the update to
  \<^verbatim>\<open>processing\<close> (routes.ts, lines 23 to 31).
\<close>

definition route_started :: "ChartConfig \<Rightarrow> string \<Rightarrow> string option \<Rightarrow> nat \<Rightarrow> state \<Rightarrow> state" where
  "route_started config rid clientId now s =
     snd (updateChartRequest rid [Set_status ''processing'']
            (sendEvent_if clientId ''request''
               (''Chart generation started for '' @ cfg_symbol config) rid None now s))"

text \<open>
  The \<^verbatim>\<open>then\<close> callback of the route: it runs after \<^verbatim>\<open>generateChart\<close> has returned its
  result, and writes the terminal status. (The \<^verbatim>\<open>catch\<close> callback of the route never
  runs: \<^verbatim>\<open>generateChart\<close> returns a result in every case, and nothing in the \<^verbatim>\<open>then\<close>
  callback throws.)
\<close>

definition generate_then :: "ChartImgResponse \<Rightarrow> string \<Rightarrow> nat \<Rightarrow> state \<Rightarrow> state" where
  "generate_then result rid now s =
     (if res_success result
      then snd (updateChartRequest rid
                  [Set_status ''completed'', Set_chartUrl (res_url result),
                   Set_base64Data (res_base64 result),
                   Set_processingTime (res_processingTime result),
                   Set_completedAt (Some now)] s)
      else snd (updateChartRequest rid
                  [Set_status ''failed'', Set_errorMessage (res_error result),
                   Set_processingTime (res_processingTime result),
                   Set_completedAt (Some now)] s))"

text \<open>
  The asynchronous part of the route for one request, in program order: the rest of
  \<^verbatim>\<open>generateChart\<close>, then the \<^verbatim>\<open>then\<close> callback.
\<close>

definition generate_settle ::
  "fetch_outcome \<Rightarrow> string \<Rightarrow> string option \<Rightarrow> nat \<Rightarrow> nat \<Rightarrow> string \<Rightarrow> state \<Rightarrow> state" where
  "generate_settle outcome rid clientId startTime now elapsed s =
     (let (result, s1) = generateChart_resume outcome rid clientId startTime now elapsed s
      in generate_then result rid now s1)"

text \<open>
  What runs once the body has been read: the rest of \<^verbatim>\<open>generateChart\<close>, and the \<^verbatim>\<open>then\<close>
  callback of the route, which follows the return in the promise queue and writes the
  ledger in the call of \<^verbatim>\<open>updateChartRequest\<close> itself.
\<close>

definition generate_finish ::
  "fetch_outcome \<Rightarrow> string \<Rightarrow> string option \<Rightarrow> nat \<Rightarrow> nat \<Rightarrow> string \<Rightarrow> state \<Rightarrow> state" where
  "generate_finish outcome rid clientId startTime now elapsed s =
     (let (result, s1) = generateChart_body outcome rid clientId startTime now elapsed s
      in generate_then result rid now s1)"

section \<open>Reachable states\<close>

text \<open>
  The states the process can be in: the initial one, and what the methods of the storage
  and of the session manager make of a reachable state. The environment may change the
  streams (other writes, a connection that starts to fail).
\<close>

inductive reachable :: "state \<Rightarrow> bool" where
  r_init: "reachable init_state"
| r_createChartRequest: "reachable s \<Longrightarrow> reachable (snd (createChartRequest config now s))"
| r_updateChartRequest: "reachable s \<Longrightarrow> reachable (snd (updateChartRequest rid updates s))"
| r_createSseEvent: "reachable s \<Longrightarrow> reachable (snd (createSseEvent insertEvent now s))"
| r_addClient: "reachable s \<Longrightarrow> reachable (addClient clientId res lastEvent now s)"
| r_removeClient: "reachable s \<Longrightarrow> reachable (removeClient clientId s)"
| r_sendEvent: "reachable s \<Longrightarrow> reachable (sendEvent clientId eventType msg rid payload now s)"
| r_broadcast: "reachable s \<Longrightarrow> reachable (broadcast eventType msg rid payload now s)"
| r_streams: "reachable s \<Longrightarrow> reachable (s\<lparr>responses := rs\<rparr>)"

section \<open>Runs of the server\<close>

text \<open>
  The server is single-threaded. A run is a stretch of a handler or of a callback from one
  \<^verbatim>\<open>await\<close> to the next: nothing else executes during a run, and a query of a reader (a
  request on another connection) reads the ledger in a run of its own. The states a reader
  can find the server in are therefore among the states between runs. \<open>observable s fl\<close>
  holds for these states; \<open>fl\<close> lists the chart generations that have not settled, with
  their request id, their client id and how far they have got.

  The runs are: a session connecting, closing, or receiving a heartbeat; a stream starting
  or ceasing to fail; of the generate handler, the validation with the creation of the
  request record (up to the first \<^verbatim>\<open>await\<close>, routes.ts line 21), then the initial event with
  the update to \<^verbatim>\<open>processing\<close> (up to the second \<^verbatim>\<open>await\<close>, line 29), then the start of
  \<^verbatim>\<open>generateChart\<close> with the response; and, of a generation that waits for the upstream,
  the run after the upstream call has settled and the run after the body has been read.
  The last one ends with the return of \<^verbatim>\<open>generateChart\<close>, and the \<^verbatim>\<open>then\<close> callback of the
  route follows it in the promise queue. The queue is emptied before the next request is
  taken up, and the read-only routes read the storage in the very call that starts them,
  so no query of a reader comes between the two: they are one step here. The read-only
  routes do not change the state. Runs of different requests interleave freely.
\<close>

datatype phase =
    Created ChartConfig
  | Started
  | Waiting nat

text \<open>The status that the handler has written to the ledger when a phase begins.\<close>

fun phase_status :: "phase \<Rightarrow> string" where
  "phase_status (Created config) = ''pending''"
| "phase_status Started = ''processing''"
| "phase_status (Waiting startTime) = ''processing''"

inductive observable :: "state \<Rightarrow> (string \<times> string option \<times> phase) list \<Rightarrow> bool" where
  o_init: "observable init_state []"
| o_register: "observable s fl \<Longrightarrow> observable (addClient clientId res lastEvent now s) fl"
| o_connect: "observable s fl \<Longrightarrow> handleSSEConnection q generated lastEvent res now s = Some s'
    \<Longrightarrow> observable s' fl"
| o_close: "observable s fl \<Longrightarrow> observable (on_close clientId s) fl"
| o_heartbeat: "observable s fl \<Longrightarrow> observable (heartbeat clientId res s) fl"
| o_stream: "observable s fl \<Longrightarrow>
    observable (s\<lparr>responses := (responses s)(res := (responses s res)\<lparr>writeThrows := b\<rparr>)\<rparr>) fl"
| o_invalid: "observable s fl \<Longrightarrow> route_generate body clientId now s = (Bad_request issues, s')
    \<Longrightarrow> observable s' fl"
| o_create: "observable s fl \<Longrightarrow> chartConfigSchema_parse body = Inr config
    \<Longrightarrow> createChartRequest config now s = (chartRequest, s')
    \<Longrightarrow> observable s' (fl @ [(requestId chartRequest, clientId, Created config)])"
| o_start: "observable s fl \<Longrightarrow> (rid, clientId, Created config) \<in> set fl
    \<Longrightarrow> observable (route_started config rid clientId now s)
          (remove1 (rid, clientId, Created config) fl @ [(rid, clientId, Started)])"
| o_begin: "observable s fl \<Longrightarrow> (rid, clientId, Started) \<in> set fl
    \<Longrightarrow> observable (generateChart_begin rid clientId now s)
          (remove1 (rid, clientId, Started) fl @ [(rid, clientId, Waiting now)])"
| o_head: "observable s fl \<Longrightarrow> (rid, clientId, Waiting startTime) \<in> set fl
    \<Longrightarrow> observable (generateChart_head outcome rid clientId now s) fl"
| o_finish: "observable s fl \<Longrightarrow> (rid, clientId, Waiting startTime) \<in> set fl
    \<Longrightarrow> observable (generate_finish outcome rid clientId startTime now elapsed s)
          (remove1 (rid, clientId, Waiting startTime) fl)"

section \<open>Invariants and example states\<close>

text \<open>
  Every list of the event history is strictly increasing in the event id, and every id in
  it is below the next id to be given out.
\<close>

definition events_inv :: "state \<Rightarrow> bool" where
  "events_inv s \<longleftrightarrow>
     (\<forall>rid. sorted_wrt (<) (map ev_id (getSseEvents rid s))
            \<and> (\<forall>e \<in> set (getSseEvents rid s). ev_id e < currentEventId s))"

text \<open>The properties of an update object that name a field written at a terminal transition.\<close>

fun names_terminal_field :: "ChartRequest_property \<Rightarrow> bool" where
  "names_terminal_field (Set_status v) = True"
| "names_terminal_field (Set_chartUrl v) = True"
| "names_terminal_field (Set_base64Data v) = True"
| "names_terminal_field (Set_errorMessage v) = True"
| "names_terminal_field (Set_processingTime v) = True"
| "names_terminal_field (Set_completedAt v) = True"
| "names_terminal_field u = False"

text \<open>
  An event of a request is covered by the status of its ledger entry: \<^verbatim>\<open>success\<close> by
  \<^verbatim>\<open>completed\<close>, \<^verbatim>\<open>error\<close> by \<^verbatim>\<open>failed\<close>, every other event by a status past
  \<^verbatim>\<open>pending\<close>. \<open>events_covered\<close>: every data line that any stream has received for a
  request is covered by the ledger.
\<close>

definition status_covers :: "string \<Rightarrow> string \<Rightarrow> bool" where
  "status_covers eventType st \<longleftrightarrow>
     (if eventType = ''success'' then st = ''completed''
      else if eventType = ''error'' then st = ''failed''
      else st = ''processing'' \<or> st = ''completed'' \<or> st = ''failed'')"

definition events_covered :: "state \<Rightarrow> bool" where
  "events_covered s \<longleftrightarrow>
     (\<forall>h d. DataLine d \<in> set (written (responses s h)) \<longrightarrow>
        ed_requestId d = ''system''
        \<or> (\<exists>r. map_of (chartRequests s) (ed_requestId d) = Some r
                \<and> status_covers (ed_type d) (status r)))"

text \<open>
  The generations that have not settled have distinct request ids, each in the ledger
  with the status of its phase; every key of the ledger was built from an id below the
  next id.
\<close>

definition in_flight_inv :: "state \<Rightarrow> (string \<times> string option \<times> phase) list \<Rightarrow> bool" where
  "in_flight_inv s fl \<longleftrightarrow>
     distinct (map fst fl)
     \<and> (\<forall>e \<in> set fl. \<exists>r. map_of (chartRequests s) (fst e) = Some r
                         \<and> status r = phase_status (snd (snd e)))"

definition keys_inv :: "state \<Rightarrow> bool" where
  "keys_inv s \<longleftrightarrow>
     (\<forall>k \<in> fst ` set (chartRequests s).
        \<exists>t i. k = ''req_'' @ show_nat t @ ''_'' @ show_nat i \<and> i < currentChartId s)"

definition run_inv :: "state \<Rightarrow> (string \<times> string option \<times> phase) list \<Rightarrow> bool" where
  "run_inv s fl \<longleftrightarrow> events_covered s \<and> in_flight_inv s fl \<and> keys_inv s"

text \<open>A request body with the three required properties, and what the schema makes of it.\<close>

definition example_body :: json where
  "example_body = JObj [(''symbol'', JStr ''NASDAQ:AAPL''), (''interval'', JStr ''1D''),
                        (''chartType'', JStr ''candlestick'')]"

definition example_config :: ChartConfig where
  "example_config =
     \<lparr>cfg_symbol = ''NASDAQ:AAPL'', cfg_interval = ''1D'', cfg_chartType = ''candlestick'',
      cfg_width = 800, cfg_height = 600, cfg_indicators = [], cfg_drawings = [],
      cfg_theme = ''light'', cfg_showVolume = True, cfg_showGrid = True,
      cfg_timezone = ''America/New_York''\<rparr>"

text \<open>The same body without its symbol.\<close>

definition body_without_symbol :: "(string \<times> json) list" where
  "body_without_symbol = [(''interval'', JStr ''1D''), (''chartType'', JStr ''candlestick'')]"

text \<open>One session, and two sessions, registered on the initial state.\<close>

definition one_session :: state where
  "one_session = addClient ''c1'' 7 None 3 init_state"

definition two_sessions :: state where
  "two_sessions = addClient ''c2'' 8 None 4 one_session"

text \<open>
  A request submitted at time 5 without a client id, whose upstream call answered with a
  PNG at time 9; and the record the ledger then holds for it.
\<close>

definition completed_request :: state where
  "completed_request =
     generate_settle (Png_body ''iVBOR'') ''req_5_1'' None 5 9 ''0.0''
       (snd (route_generate example_body None 5 init_state))"

definition completed_record :: ChartRequest where
  "completed_record =
     \<lparr>cr_id = 1, requestId = ''req_5_1'', symbol = ''NASDAQ:AAPL'', interval = ''1D'',
      chartType = ''candlestick'', width = 800, height = 600, indicators = Some [],
      drawings = Some [], theme = ''light'', showVolume = True, showGrid = True,
      timezone = ''America/New_York'', status = ''completed'', chartUrl = None,
      base64Data = Some ''data:image/png;base64,iVBOR'', errorMessage = None,
      processingTime = Some 4, createdAt = 5, completedAt = Some 9\<rparr>"

text \<open>Two events sent to the one session for the same request.\<close>

definition two_events :: state where
  "two_events =
     sendEvent ''c1'' ''progress'' ''Preparing chart request...'' ''req_5_1'' None 6
       (sendEvent ''c1'' ''request'' ''Chart generation started for NASDAQ:AAPL'' ''req_5_1'' None 5
          one_session)"

text \<open>Three requests created on the initial state, at the times \<open>t1\<close>, \<open>t2\<close>, \<open>t3\<close>.\<close>

definition three_requests :: "nat \<Rightarrow> nat \<Rightarrow> nat \<Rightarrow> state" where
  "three_requests t1 t2 t3 =
     snd (createChartRequest example_config t3
       (snd (createChartRequest example_config t2
         (snd (createChartRequest example_config t1 init_state)))))"

text \<open>
  A submission at time 5 by the one session when the handler has answered; the same
  request after a PNG answer (response at time 8, body read at time 9); and the data line
  of the \<^verbatim>\<open>success\<close> event it then sent.
\<close>

definition processing_example :: state where
  "processing_example = snd (route_generate example_body (Some ''c1'') 5 one_session)"

definition settled_example :: state where
  "settled_example =
     generate_finish (Png_body ''iVBOR'') ''req_5_1'' (Some ''c1'') 5 9 ''0.0''
       (generateChart_head (Png_body ''iVBOR'') ''req_5_1'' (Some ''c1'') 8 processing_example)"

definition success_event :: EventData where
  "success_event =
     \<lparr>ed_type = ''success'', ed_message = ''Chart generated successfully (0.0s)'',
      ed_requestId = ''req_5_1'', ed_timestamp = 9,
      ed_data = Some (JObj [(''chartGenerated'', JBool True), (''processingTime'', JNum 4)])\<rparr>"



section \<open>Evaluating the examples\<close>

lemma parse_example: "chartConfigSchema_parse example_body = Inr example_config"
  by (simp add: chartConfigSchema_parse_def z_string_min_def z_string_def z_enum_def z_default_def
      intervals_def chartTypes_def example_config_def example_body_def)

lemma show_nat_digit: "n < 10 \<Longrightarrow> show_nat n = [digit_char n]"
  by (simp add: show_nat.simps)

lemma show_nat_5_1: "show_nat 5 = ''5''" "show_nat (Suc 0) = ''1''"
  by (simp_all add: show_nat_digit digit_char_def)

lemma chartRequests_sendEvent [simp]:
  "chartRequests (sendEvent c et m rid p now s) = chartRequests s"
  by (simp add: sendEvent_def Let_def removeClient_def end_response_def write_chunks_def
      createSseEvent_def split: option.splits)

lemma chartRequests_sendEvent_if [simp]:
  "chartRequests (sendEvent_if cid et m rid p now s) = chartRequests s"
  by (simp add: sendEvent_if_def split: option.splits)

lemma sendEvent_if_None [simp]: "sendEvent_if None et m rid p now s = s"
  by (simp add: sendEvent_if_def)

lemma one_session_fields:
  "clients one_session = [(''c1'', \<lparr>client_id = ''c1'', response = 7, lastEventId = None\<rparr>)]"
  "writeThrows (responses one_session h) = False"
  "sseEvents one_session = Map.empty" "currentEventId one_session = 1"
  "chartRequests one_session = []" "currentChartId one_session = 1"
  by (simp_all add: one_session_def addClient_def sendEvent_def write_chunks_def init_state_def
      new_Response_def)

lemma completed_request_ledger:
  "chartRequests completed_request = [(''req_5_1'', completed_record)]"
  by (simp add: completed_request_def completed_record_def route_generate_def parse_example
      generate_accept_def createChartRequest_def example_config_def init_state_def
      updateChartRequest_def spread_def generateChart_begin_def show_nat_5_1 Let_def
      generate_settle_def generateChart_resume_def generateChart_success_def generate_then_def)

section \<open>Updating a request that is not in the ledger\<close>

text \<open>
  C10. For a request id that is not in the ledger, and any update object,
  \<^verbatim>\<open>updateChartRequest\<close> returns \<^verbatim>\<open>undefined\<close> and leaves the whole state as it was: no
  entry is created and none is modified.
\<close>

theorem updateChartRequest_unknown:
  "getChartRequest rid s = None \<Longrightarrow> updateChartRequest rid updates s = (None, s)"
  by (simp add: getChartRequest_def updateChartRequest_def)

theorem updateChartRequest_unknown_witness:
  "getChartRequest ''req_5_1'' init_state = None
   \<and> updateChartRequest ''req_5_1'' [Set_status ''completed''] init_state = (None, init_state)"
  using updateChartRequest_unknown [of "''req_5_1''" init_state "[Set_status ''completed'']"]
  by (simp add: getChartRequest_def init_state_def)

section \<open>Removing a client\<close>

lemma removeClient_unknown: "map_of (clients s) c = None \<Longrightarrow> removeClient c s = s"
  by (simp add: removeClient_def)

lemma removeClient_unregisters: "map_of (clients (removeClient c s)) c = None"
  by (simp add: removeClient_def end_response_def delete_conv' split: option.splits)

text \<open>
  C9. \<^verbatim>\<open>removeClient\<close> is total (it has no failing branch) and idempotent: a second call
  with the same client id changes nothing, so the client count stays what it was after
  the first call; a call with an id that is not registered changes nothing at all.
\<close>

theorem removeClient_idempotent:
  "removeClient c (removeClient c s) = removeClient c s
   \<and> getClientCount (removeClient c (removeClient c s)) = getClientCount (removeClient c s)
   \<and> (map_of (clients s) c = None \<longrightarrow>
        removeClient c s = s \<and> getClientCount (removeClient c s) = getClientCount s)"
  by (simp add: removeClient_unknown removeClient_unregisters)

theorem removeClient_idempotent_witness:
  "map_of (clients one_session) ''c2'' = None
   \<and> removeClient ''c2'' one_session = one_session
   \<and> getClientCount (removeClient ''c2'' one_session) = 1
   \<and> getClientCount (removeClient ''c1'' one_session) = 0
   \<and> getClientCount (removeClient ''c1'' (removeClient ''c1'' one_session)) = 0"
proof -
  have unknown: "map_of (clients one_session) ''c2'' = None"
    by (simp add: one_session_fields)
  have gone: "getClientCount (removeClient ''c1'' one_session) = 0"
    by (simp add: getClientCount_def removeClient_def end_response_def one_session_fields)
  show ?thesis
    using removeClient_idempotent [of "''c2''" one_session]
      removeClient_idempotent [of "''c1''" one_session] unknown gone
    by (simp add: getClientCount_def one_session_fields)
qed

section \<open>Updating a request in a terminal state\<close>

lemma spread_snoc: "spread r (us @ [u]) = set_property (spread r us) u"
  by (simp add: spread_def)

lemma spread_keeps_terminal_fields:
  "\<forall>u \<in> set us. \<not> names_terminal_field u \<Longrightarrow>
   status (spread r us) = status r \<and> chartUrl (spread r us) = chartUrl r
   \<and> base64Data (spread r us) = base64Data r \<and> errorMessage (spread r us) = errorMessage r
   \<and> processingTime (spread r us) = processingTime r
   \<and> completedAt (spread r us) = completedAt r"
proof (induction us rule: rev_induct)
  case Nil
  show ?case by (simp add: spread_def)
next
  case (snoc u us)
  then have "\<not> names_terminal_field u" by simp
  with snoc show ?case by (cases u) (simp_all add: spread_snoc)
qed

lemma spread_status_last: "status (spread r (us @ [Set_status v])) = v"
  by (simp add: spread_snoc)

text \<open>
  C2, as the code has it. \<^verbatim>\<open>updateChartRequest\<close> has no check of the current status: on
  the completed request of the example, an update that names \<^verbatim>\<open>status\<close> and
  \<^verbatim>\<open>base64Data\<close> is accepted, the merged record is returned, and the ledger then shows
  the request as \<^verbatim>\<open>processing\<close> with its image gone.
\<close>

theorem terminal_update_counterexample:
  "map_option status (getChartRequest ''req_5_1'' completed_request) = Some ''completed''
   \<and> map_option status (fst (updateChartRequest ''req_5_1''
          [Set_status ''processing'', Set_base64Data None] completed_request)) = Some ''processing''
   \<and> map_option status (getChartRequest ''req_5_1'' (snd (updateChartRequest ''req_5_1''
          [Set_status ''processing'', Set_base64Data None] completed_request))) = Some ''processing''
   \<and> map_option base64Data (getChartRequest ''req_5_1'' (snd (updateChartRequest ''req_5_1''
          [Set_status ''processing'', Set_base64Data None] completed_request))) = Some None"
  by (simp add: getChartRequest_def updateChartRequest_def completed_request_ledger spread_def
      completed_record_def Let_def)

lemma spread_cons_after:
  "spread r (before @ u # (after @ [a])) = set_property (spread r (before @ u # after)) a"
  by (simp add: spread_def)

lemma status_named:
  "\<forall>w. Set_status w \<notin> set after \<Longrightarrow> status (spread r (before @ Set_status v # after)) = v"
proof (induction after rule: rev_induct)
  case Nil
  show ?case by (simp add: spread_def)
next
  case (snoc a after)
  then have "\<forall>w. a \<noteq> Set_status w" and "\<forall>w. Set_status w \<notin> set after" by auto
  with snoc.IH show ?case by (cases a) (simp_all add: spread_cons_after)
qed

lemma chartUrl_named:
  "\<forall>w. Set_chartUrl w \<notin> set after \<Longrightarrow> chartUrl (spread r (before @ Set_chartUrl v # after)) = v"
proof (induction after rule: rev_induct)
  case Nil
  show ?case by (simp add: spread_def)
next
  case (snoc a after)
  then have "\<forall>w. a \<noteq> Set_chartUrl w" and "\<forall>w. Set_chartUrl w \<notin> set after" by auto
  with snoc.IH show ?case by (cases a) (simp_all add: spread_cons_after)
qed

lemma base64Data_named:
  "\<forall>w. Set_base64Data w \<notin> set after \<Longrightarrow>
   base64Data (spread r (before @ Set_base64Data v # after)) = v"
proof (induction after rule: rev_induct)
  case Nil
  show ?case by (simp add: spread_def)
next
  case (snoc a after)
  then have "\<forall>w. a \<noteq> Set_base64Data w" and "\<forall>w. Set_base64Data w \<notin> set after" by auto
  with snoc.IH show ?case by (cases a) (simp_all add: spread_cons_after)
qed

lemma errorMessage_named:
  "\<forall>w. Set_errorMessage w \<notin> set after \<Longrightarrow>
   errorMessage (spread r (before @ Set_errorMessage v # after)) = v"
proof (induction after rule: rev_induct)
  case Nil
  show ?case by (simp add: spread_def)
next
  case (snoc a after)
  then have "\<forall>w. a \<noteq> Set_errorMessage w" and "\<forall>w. Set_errorMessage w \<notin> set after" by auto
  with snoc.IH show ?case by (cases a) (simp_all add: spread_cons_after)
qed

lemma processingTime_named:
  "\<forall>w. Set_processingTime w \<notin> set after \<Longrightarrow>
   processingTime (spread r (before @ Set_processingTime v # after)) = v"
proof (induction after rule: rev_induct)
  case Nil
  show ?case by (simp add: spread_def)
next
  case (snoc a after)
  then have "\<forall>w. a \<noteq> Set_processingTime w" and "\<forall>w. Set_processingTime w \<notin> set after"
    by auto
  with snoc.IH show ?case by (cases a) (simp_all add: spread_cons_after)
qed

lemma completedAt_named:
  "\<forall>w. Set_completedAt w \<notin> set after \<Longrightarrow>
   completedAt (spread r (before @ Set_completedAt v # after)) = v"
proof (induction after rule: rev_induct)
  case Nil
  show ?case by (simp add: spread_def)
next
  case (snoc a after)
  then have "\<forall>w. a \<noteq> Set_completedAt w" and "\<forall>w. Set_completedAt w \<notin> set after" by auto
  with snoc.IH show ?case by (cases a) (simp_all add: spread_cons_after)
qed

text \<open>
  C2, amended. An update of a request that is in the ledger, whatever its status, is
  never rejected: the merged record is returned and stored. Each terminal field (status,
  chart URL, image data, error message, processing time, completion time) that the update
  names, at any place in the update, takes the value the update gives it (the last one,
  should the update name the field twice); the terminal fields keep their values when the
  update names none of them.
\<close>

theorem updateChartRequest_merges:
  "getChartRequest rid s = Some existing \<Longrightarrow>
   fst (updateChartRequest rid updates s) = Some (spread existing updates)
   \<and> getChartRequest rid (snd (updateChartRequest rid updates s)) = Some (spread existing updates)
   \<and> status (spread existing (updates @ [Set_status v])) = v
   \<and> ((\<forall>u \<in> set updates. \<not> names_terminal_field u) \<longrightarrow>
        status (spread existing updates) = status existing
        \<and> chartUrl (spread existing updates) = chartUrl existing
        \<and> base64Data (spread existing updates) = base64Data existing
        \<and> errorMessage (spread existing updates) = errorMessage existing
        \<and> processingTime (spread existing updates) = processingTime existing
        \<and> completedAt (spread existing updates) = completedAt existing)
   \<and> (updates = before @ Set_status v # after \<and> (\<forall>w. Set_status w \<notin> set after) \<longrightarrow>
        status (spread existing updates) = v)
   \<and> (updates = before @ Set_chartUrl url # after \<and> (\<forall>w. Set_chartUrl w \<notin> set after) \<longrightarrow>
        chartUrl (spread existing updates) = url)
   \<and> (updates = before @ Set_base64Data img # after \<and> (\<forall>w. Set_base64Data w \<notin> set after) \<longrightarrow>
        base64Data (spread existing updates) = img)
   \<and> (updates = before @ Set_errorMessage err # after
          \<and> (\<forall>w. Set_errorMessage w \<notin> set after) \<longrightarrow>
        errorMessage (spread existing updates) = err)
   \<and> (updates = before @ Set_processingTime pt # after
          \<and> (\<forall>w. Set_processingTime w \<notin> set after) \<longrightarrow>
        processingTime (spread existing updates) = pt)
   \<and> (updates = before @ Set_completedAt finished # after
          \<and> (\<forall>w. Set_completedAt w \<notin> set after) \<longrightarrow>
        completedAt (spread existing updates) = finished)"
proof -
  assume ex: "getChartRequest rid s = Some existing"
  then have a: "fst (updateChartRequest rid updates s) = Some (spread existing updates)"
    by (simp add: getChartRequest_def updateChartRequest_def Let_def)
  from ex have b: "getChartRequest rid (snd (updateChartRequest rid updates s))
                    = Some (spread existing updates)"
    by (simp add: getChartRequest_def updateChartRequest_def update_conv' Let_def)
  have c: "status (spread existing (updates @ [Set_status v])) = v"
    by (rule spread_status_last)
  have d: "(\<forall>u \<in> set updates. \<not> names_terminal_field u) \<longrightarrow>
        status (spread existing updates) = status existing
        \<and> chartUrl (spread existing updates) = chartUrl existing
        \<and> base64Data (spread existing updates) = base64Data existing
        \<and> errorMessage (spread existing updates) = errorMessage existing
        \<and> processingTime (spread existing updates) = processingTime existing
        \<and> completedAt (spread existing updates) = completedAt existing"
    by (intro impI spread_keeps_terminal_fields)
  have e1: "updates = before @ Set_status v # after \<and> (\<forall>w. Set_status w \<notin> set after) \<longrightarrow>
        status (spread existing updates) = v"
    by (intro impI) (simp add: status_named)
  have e2: "updates = before @ Set_chartUrl url # after \<and> (\<forall>w. Set_chartUrl w \<notin> set after) \<longrightarrow>
        chartUrl (spread existing updates) = url"
    by (intro impI) (simp add: chartUrl_named)
  have e3: "updates = before @ Set_base64Data img # after
          \<and> (\<forall>w. Set_base64Data w \<notin> set after) \<longrightarrow>
        base64Data (spread existing updates) = img"
    by (intro impI) (simp add: base64Data_named)
  have e4: "updates = before @ Set_errorMessage err # after
          \<and> (\<forall>w. Set_errorMessage w \<notin> set after) \<longrightarrow>
        errorMessage (spread existing updates) = err"
    by (intro impI) (simp add: errorMessage_named)
  have e5: "updates = before @ Set_processingTime pt # after
          \<and> (\<forall>w. Set_processingTime w \<notin> set after) \<longrightarrow>
        processingTime (spread existing updates) = pt"
    by (intro impI) (simp add: processingTime_named)
  have e6: "updates = before @ Set_completedAt finished # after
          \<and> (\<forall>w. Set_completedAt w \<notin> set after) \<longrightarrow>
        completedAt (spread existing updates) = finished"
    by (intro impI) (simp add: completedAt_named)
  from a b c d e1 e2 e3 e4 e5 e6 show ?thesis by (intro conjI)
qed

theorem updateChartRequest_merges_witness:
  "getChartRequest ''req_5_1'' completed_request = Some completed_record
   \<and> \<not> names_terminal_field (Set_theme ''dark'')
   \<and> fst (updateChartRequest ''req_5_1'' [Set_theme ''dark''] completed_request)
       = Some (completed_record\<lparr>theme := ''dark''\<rparr>)
   \<and> status (spread completed_record [Set_theme ''dark'']) = ''completed''
   \<and> completedAt (spread completed_record [Set_theme ''dark'']) = Some 9
   \<and> status (spread completed_record [Set_theme ''dark'', Set_status ''failed'']) = ''failed''
   \<and> [Set_status ''processing'', Set_base64Data None]
       = [] @ Set_status ''processing'' # [Set_base64Data None]
   \<and> Set_status ''failed'' \<notin> set [Set_base64Data None]
   \<and> status (spread completed_record [Set_status ''processing'', Set_base64Data None])
       = ''processing''
   \<and> base64Data (spread completed_record [Set_status ''processing'', Set_base64Data None]) = None"
proof -
  have ex: "getChartRequest ''req_5_1'' completed_request = Some completed_record"
    by (simp add: getChartRequest_def completed_request_ledger)
  have quiet: "\<forall>u \<in> set [Set_theme ''dark'']. \<not> names_terminal_field u"
    by simp
  have first: "status (spread completed_record [Set_status ''processing'', Set_base64Data None])
       = ''processing''"
    using updateChartRequest_merges [OF ex, of "[Set_status ''processing'', Set_base64Data None]"
        "''processing''" "[]" "[Set_base64Data None]",
        THEN conjunct2, THEN conjunct2, THEN conjunct2, THEN conjunct2, THEN conjunct1]
    by simp
  have img: "base64Data (spread completed_record [Set_status ''processing'', Set_base64Data None])
       = None"
    by (simp add: spread_def)
  have rest: "fst (updateChartRequest ''req_5_1'' [Set_theme ''dark''] completed_request)
       = Some (completed_record\<lparr>theme := ''dark''\<rparr>)
   \<and> status (spread completed_record [Set_theme ''dark'']) = ''completed''
   \<and> completedAt (spread completed_record [Set_theme ''dark'']) = Some 9
   \<and> status (spread completed_record [Set_theme ''dark'', Set_status ''failed'']) = ''failed''"
    using updateChartRequest_merges [OF ex, of "[Set_theme ''dark'']" "''failed''"] quiet
    by (simp add: spread_def completed_record_def)
  from ex first img rest show ?thesis by simp
qed

section \<open>The event history and the sessions\<close>

text \<open>
  C1, as the code has it. \<^verbatim>\<open>sendEvent\<close> returns before it stores anything when the client
  is not registered. With no session registered, a request submitted with the client id
  \<^verbatim>\<open>c1\<close> runs to completion (five calls of \<^verbatim>\<open>sendEvent\<close> for it) and its event history is
  empty.
\<close>

theorem no_session_no_history:
  "getClientCount init_state = 0
   \<and> fst (route_generate example_body (Some ''c1'') 5 init_state) = Ok_processing ''req_5_1''
   \<and> ''req_5_1'' \<noteq> ''system''
   \<and> getSseEvents ''req_5_1''
        (generate_settle (Png_body ''iVBOR'') ''req_5_1'' (Some ''c1'') 5 9 ''0.0''
           (snd (route_generate example_body (Some ''c1'') 5 init_state))) = []"
  by (simp add: route_generate_def parse_example generate_accept_def
      createChartRequest_def example_config_def init_state_def updateChartRequest_def spread_def
      generateChart_begin_def show_nat_5_1 Let_def generate_settle_def generateChart_resume_def
      generateChart_success_def generate_then_def sendEvent_if_def sendEvent_def getSseEvents_def
      getClientCount_def)

text \<open>
  C1, amended. An event sent with a request id other than \<^verbatim>\<open>system\<close> is appended to the
  history of its request exactly when the target client is registered at that moment and
  the write to its stream does not throw; otherwise the history is unchanged.
\<close>

theorem sendEvent_history:
  "rid \<noteq> ''system'' \<Longrightarrow>
   getSseEvents rid (sendEvent c et m rid p now s) =
     (case map_of (clients s) c of
        None \<Rightarrow> getSseEvents rid s
      | Some client \<Rightarrow>
          if writeThrows (responses s (response client)) then getSseEvents rid s
          else getSseEvents rid s @
                 [\<lparr>ev_id = currentEventId s, ev_requestId = rid, ev_eventType = toUpperCase et,
                   ev_message = m, ev_timestamp = now\<rparr>])"
  by (simp add: sendEvent_def getSseEvents_def createSseEvent_def write_chunks_def
      removeClient_def end_response_def Let_def split: option.splits)

theorem sendEvent_history_witness:
  "''req_5_1'' \<noteq> ''system''
   \<and> getSseEvents ''req_5_1''
        (sendEvent ''c1'' ''request'' ''Chart generation started for NASDAQ:AAPL'' ''req_5_1'' None 5
           one_session)
       = [\<lparr>ev_id = 1, ev_requestId = ''req_5_1'', ev_eventType = ''REQUEST'',
           ev_message = ''Chart generation started for NASDAQ:AAPL'', ev_timestamp = 5\<rparr>]"
  using sendEvent_history [of "''req_5_1''" "''c1''" "''request''"
      "''Chart generation started for NASDAQ:AAPL''" None 5 one_session]
  by (simp add: one_session_fields getSseEvents_def toUpperCase_def upper_char_def)

section \<open>Event ids\<close>

lemma getSseEvents_createSseEvent:
  "getSseEvents rid (snd (createSseEvent ins now s)) =
     (if rid = ins_requestId ins then getSseEvents rid s @ [fst (createSseEvent ins now s)]
      else getSseEvents rid s)"
  by (simp add: getSseEvents_def createSseEvent_def Let_def)

lemma createSseEvent_id:
  "ev_id (fst (createSseEvent ins now s)) = currentEventId s"
  "currentEventId (snd (createSseEvent ins now s)) = Suc (currentEventId s)"
  by (simp_all add: createSseEvent_def Let_def)

lemma events_inv_createSseEvent: "events_inv s \<Longrightarrow> events_inv (snd (createSseEvent ins now s))"
  unfolding events_inv_def
  by (auto simp add: getSseEvents_createSseEvent createSseEvent_id sorted_wrt_append less_Suc_eq)

lemma events_inv_write_chunks [simp]: "events_inv (write_chunks h cs s) = events_inv s"
  by (simp add: events_inv_def getSseEvents_def write_chunks_def)

lemma events_inv_removeClient [simp]: "events_inv (removeClient c s) = events_inv s"
  by (simp add: events_inv_def getSseEvents_def removeClient_def end_response_def
      split: option.splits)

lemma events_inv_sendEvent: "events_inv s \<Longrightarrow> events_inv (sendEvent c et m rid p now s)"
  by (simp add: sendEvent_def Let_def events_inv_createSseEvent split: option.splits)

lemma events_inv_foldl_sendEvent:
  "events_inv s \<Longrightarrow> events_inv (foldl (\<lambda>st c. sendEvent c et m rid p now st) s cs)"
  by (induction cs arbitrary: s) (simp_all add: events_inv_sendEvent)

lemma events_inv_broadcast: "events_inv s \<Longrightarrow> events_inv (broadcast et m rid p now s)"
  by (simp add: broadcast_def events_inv_foldl_sendEvent)

lemma events_inv_clients [simp]: "events_inv (s\<lparr>clients := cl\<rparr>) = events_inv s"
  by (simp add: events_inv_def getSseEvents_def)

lemma events_inv_addClient: "events_inv s \<Longrightarrow> events_inv (addClient c h l now s)"
  by (simp add: addClient_def Let_def events_inv_sendEvent)

lemma events_inv_ledger:
  "events_inv (snd (createChartRequest cfg now s)) = events_inv s"
  "events_inv (snd (updateChartRequest rid ups s)) = events_inv s"
  by (simp_all add: events_inv_def getSseEvents_def createChartRequest_def
      updateChartRequest_def Let_def split: option.splits)

lemma reachable_events_inv: "reachable s \<Longrightarrow> events_inv s"
proof (induction rule: reachable.induct)
  case r_init
  show ?case by (simp add: events_inv_def getSseEvents_def init_state_def)
next
  case (r_streams s rs)
  then show ?case by (simp add: events_inv_def getSseEvents_def)
qed (simp_all add: events_inv_createSseEvent events_inv_sendEvent events_inv_broadcast
      events_inv_addClient events_inv_ledger)

text \<open>
  C8. In every reachable state the events recorded for a request id have strictly
  increasing ids, in the order of the list. The list is in the order of emission:
  \<^verbatim>\<open>createSseEvent\<close> appends the new event at the end, with an id above every id already
  recorded for the request.
\<close>

theorem event_ids_increasing:
  "reachable s \<Longrightarrow>
   sorted_wrt (<) (map ev_id (getSseEvents rid s))
   \<and> getSseEvents (ins_requestId ins) (snd (createSseEvent ins now s))
       = getSseEvents (ins_requestId ins) s @ [fst (createSseEvent ins now s)]
   \<and> (\<forall>e \<in> set (getSseEvents (ins_requestId ins) s).
         ev_id e < ev_id (fst (createSseEvent ins now s)))"
proof -
  assume "reachable s"
  then have inv: "events_inv s" by (rule reachable_events_inv)
  then show ?thesis
    by (simp add: events_inv_def getSseEvents_createSseEvent createSseEvent_id)
qed

lemma reachable_one_session: "reachable one_session"
  unfolding one_session_def by (intro reachable.intros)

lemma two_events_ids: "map ev_id (getSseEvents ''req_5_1'' two_events) = [1, 2]"
  by (simp add: two_events_def sendEvent_def one_session_fields write_chunks_def
      createSseEvent_def getSseEvents_def Let_def)

theorem event_ids_increasing_witness:
  "reachable two_events
   \<and> map ev_id (getSseEvents ''req_5_1'' two_events) = [1, 2]
   \<and> sorted_wrt (<) (map ev_id (getSseEvents ''req_5_1'' two_events))
   \<and> map ev_id (getSseEvents ''req_5_1''
        (snd (createSseEvent
                \<lparr>ins_requestId = ''req_5_1'', ins_eventType = ''SUCCESS'', ins_message = ''done''\<rparr>
                9 two_events))) = [1, 2, 3]"
proof -
  have r: "reachable two_events"
    unfolding two_events_def by (intro reachable.intros reachable_one_session)
  have three: "ev_id (fst (createSseEvent
                \<lparr>ins_requestId = ''req_5_1'', ins_eventType = ''SUCCESS'', ins_message = ''done''\<rparr>
                9 two_events)) = 3"
    by (simp add: two_events_def sendEvent_def one_session_fields write_chunks_def
      createSseEvent_def getSseEvents_def Let_def)
  show ?thesis
    using event_ids_increasing [OF r, of "''req_5_1''"
        "\<lparr>ins_requestId = ''req_5_1'', ins_eventType = ''SUCCESS'', ins_message = ''done''\<rparr>" 9]
      r two_events_ids three
    by simp
qed

section \<open>A submission that fails validation\<close>

lemma parse_missing_symbol:
  "map_of kvs ''symbol'' = None \<Longrightarrow>
   \<exists>issues. chartConfigSchema_parse (JObj kvs) = Inl (ZodError issues) \<and> ''symbol'' \<in> set issues"
  by (simp add: chartConfigSchema_parse_def z_string_min_def z_string_def Let_def)

text \<open>
  C7. A submission whose body fails validation is answered at once with the validation
  error (status 400), and the state is what it was: no request is created, no event is
  sent or stored, and the recent requests are the same. A body without the
  \<^verbatim>\<open>symbol\<close> property fails validation, with \<^verbatim>\<open>symbol\<close> among the issues.
\<close>

theorem invalid_submission_rejected:
  "(chartConfigSchema_parse body = Inl (ZodError issues) \<longrightarrow>
      route_generate body clientId now s = (Bad_request issues, s)
      \<and> getRecentChartRequests limit (snd (route_generate body clientId now s))
          = getRecentChartRequests limit s
      \<and> getSseEvents rid (snd (route_generate body clientId now s)) = getSseEvents rid s)
   \<and> (map_of kvs ''symbol'' = None \<longrightarrow>
        (\<exists>found. ''symbol'' \<in> set found
           \<and> route_generate (JObj kvs) clientId now s = (Bad_request found, s)))"
proof -
  have a: "chartConfigSchema_parse body = Inl (ZodError issues) \<longrightarrow>
      route_generate body clientId now s = (Bad_request issues, s)
      \<and> getRecentChartRequests limit (snd (route_generate body clientId now s))
          = getRecentChartRequests limit s
      \<and> getSseEvents rid (snd (route_generate body clientId now s)) = getSseEvents rid s"
    by (simp add: route_generate_def)
  have b: "map_of kvs ''symbol'' = None \<longrightarrow>
        (\<exists>found. ''symbol'' \<in> set found
           \<and> route_generate (JObj kvs) clientId now s = (Bad_request found, s))"
  proof
    assume "map_of kvs ''symbol'' = None"
    then obtain found where "chartConfigSchema_parse (JObj kvs) = Inl (ZodError found)"
      and "''symbol'' \<in> set found"
      using parse_missing_symbol by blast
    then show "\<exists>found. ''symbol'' \<in> set found
           \<and> route_generate (JObj kvs) clientId now s = (Bad_request found, s)"
      by (auto simp add: route_generate_def)
  qed
  from a b show ?thesis by blast
qed

lemma parse_body_without_symbol:
  "chartConfigSchema_parse (JObj body_without_symbol) = Inl (ZodError [''symbol''])"
  by (simp add: chartConfigSchema_parse_def z_string_min_def z_string_def z_enum_def z_default_def
      intervals_def chartTypes_def body_without_symbol_def)

theorem invalid_submission_rejected_witness:
  "chartConfigSchema_parse (JObj body_without_symbol) = Inl (ZodError [''symbol''])
   \<and> map_of body_without_symbol ''symbol'' = None
   \<and> route_generate (JObj body_without_symbol) (Some ''c1'') 5 one_session
       = (Bad_request [''symbol''], one_session)
   \<and> getRecentChartRequests 10 (snd (route_generate (JObj body_without_symbol) (Some ''c1'') 5 one_session))
       = getRecentChartRequests 10 one_session
   \<and> getSseEvents ''req_5_1'' (snd (route_generate (JObj body_without_symbol) (Some ''c1'') 5 one_session)) = []"
proof -
  have missing: "map_of body_without_symbol ''symbol'' = None"
    by (simp add: body_without_symbol_def)
  have none: "getSseEvents ''req_5_1'' one_session = []"
    by (simp add: getSseEvents_def one_session_fields)
  show ?thesis
    using invalid_submission_rejected [of "JObj body_without_symbol" "[''symbol'']" "Some ''c1''" 5
        one_session 10 "''req_5_1''" body_without_symbol]
      parse_body_without_symbol missing none
    by simp
qed

section \<open>Delivery of an event\<close>

lemma sendEvent_delivered:
  assumes "map_of (clients s) c = Some cl" and "\<not> writeThrows (responses s (response cl))"
  shows "clients (sendEvent c et m rid p now s) = clients s"
    and "writeThrows (responses (sendEvent c et m rid p now s) h) = writeThrows (responses s h)"
    and "ended (responses (sendEvent c et m rid p now s) h) = ended (responses s h)"
    and "written (responses (sendEvent c et m rid p now s) h) =
           written (responses s h) @
             (if response cl = h
              then [EventLine et,
                    DataLine \<lparr>ed_type = et, ed_message = m, ed_requestId = rid,
                              ed_timestamp = now, ed_data = p\<rparr>]
              else [])"
    and "rid \<noteq> ''system'' \<Longrightarrow>
           currentEventId (sendEvent c et m rid p now s) = Suc (currentEventId s)"
    and "rid \<noteq> ''system'' \<Longrightarrow>
           getSseEvents rid (sendEvent c et m rid p now s) =
             getSseEvents rid s @
               [\<lparr>ev_id = currentEventId s, ev_requestId = rid, ev_eventType = toUpperCase et,
                 ev_message = m, ev_timestamp = now\<rparr>]"
    and "rid = ''system'' \<Longrightarrow> sseEvents (sendEvent c et m rid p now s) = sseEvents s"
  using assms
  by (simp_all add: sendEvent_def write_chunks_def createSseEvent_def getSseEvents_def Let_def)

lemma foldl_sendEvent_delivered:
  assumes rid: "rid \<noteq> ''system''"
    and ok: "\<forall>c \<in> set cs. \<exists>cl. map_of (clients s) c = Some cl
                \<and> \<not> writeThrows (responses s (response cl))"
  shows "clients (foldl (\<lambda>st c. sendEvent c et m rid p now st) s cs) = clients s
    \<and> (\<forall>h. writeThrows (responses (foldl (\<lambda>st c. sendEvent c et m rid p now st) s cs) h)
            = writeThrows (responses s h))
    \<and> currentEventId (foldl (\<lambda>st c. sendEvent c et m rid p now st) s cs)
        = currentEventId s + length cs
    \<and> getSseEvents rid (foldl (\<lambda>st c. sendEvent c et m rid p now st) s cs)
        = getSseEvents rid s @
            map (\<lambda>i. \<lparr>ev_id = currentEventId s + i, ev_requestId = rid,
                       ev_eventType = toUpperCase et, ev_message = m, ev_timestamp = now\<rparr>)
              [0..<length cs]
    \<and> (\<forall>h. written (responses (foldl (\<lambda>st c. sendEvent c et m rid p now st) s cs) h)
            = written (responses s h) @
                concat (map (\<lambda>c. case map_of (clients s) c of
                                    None \<Rightarrow> []
                                  | Some cl \<Rightarrow>
                                      if response cl = h
                                      then [EventLine et,
                                            DataLine \<lparr>ed_type = et, ed_message = m,
                                                      ed_requestId = rid, ed_timestamp = now,
                                                      ed_data = p\<rparr>]
                                      else []) cs))"
  using ok
proof (induction cs rule: rev_induct)
  case Nil
  show ?case by simp
next
  case (snoc c cs)
  let ?mid = "foldl (\<lambda>st c. sendEvent c et m rid p now st) s cs"
  from snoc.prems obtain cl where cl: "map_of (clients s) c = Some cl"
    and fine: "\<not> writeThrows (responses s (response cl))"
    by auto
  from snoc have ih: "clients ?mid = clients s"
    "\<And>h. writeThrows (responses ?mid h) = writeThrows (responses s h)"
    "currentEventId ?mid = currentEventId s + length cs"
    "getSseEvents rid ?mid = getSseEvents rid s @
            map (\<lambda>i. \<lparr>ev_id = currentEventId s + i, ev_requestId = rid,
                       ev_eventType = toUpperCase et, ev_message = m, ev_timestamp = now\<rparr>)
              [0..<length cs]"
    "\<And>h. written (responses ?mid h) = written (responses s h) @
                concat (map (\<lambda>c. case map_of (clients s) c of
                                    None \<Rightarrow> []
                                  | Some cl \<Rightarrow>
                                      if response cl = h
                                      then [EventLine et,
                                            DataLine \<lparr>ed_type = et, ed_message = m,
                                                      ed_requestId = rid, ed_timestamp = now,
                                                      ed_data = p\<rparr>]
                                      else []) cs)"
    by simp_all
  have cl': "map_of (clients ?mid) c = Some cl"
    and fine': "\<not> writeThrows (responses ?mid (response cl))"
    using cl fine ih(1,2) by simp_all
  note step = sendEvent_delivered [OF cl' fine', where et = et and m = m and rid = rid
      and p = p and now = now]
  have eq: "foldl (\<lambda>st c. sendEvent c et m rid p now st) s (cs @ [c])
          = sendEvent c et m rid p now ?mid"
    by simp
  have c1: "clients (sendEvent c et m rid p now ?mid) = clients s"
    by (simp only: step(1) ih(1))
  have c2: "\<forall>h. writeThrows (responses (sendEvent c et m rid p now ?mid) h)
            = writeThrows (responses s h)"
    by (simp only: step(2) ih(2)) simp
  have c3: "currentEventId (sendEvent c et m rid p now ?mid)
              = currentEventId s + length (cs @ [c])"
    by (simp only: step(5) [OF rid] ih(3)) simp
  have c4: "getSseEvents rid (sendEvent c et m rid p now ?mid)
        = getSseEvents rid s @
            map (\<lambda>i. \<lparr>ev_id = currentEventId s + i, ev_requestId = rid,
                       ev_eventType = toUpperCase et, ev_message = m, ev_timestamp = now\<rparr>)
              [0..<length (cs @ [c])]"
    by (simp only: step(6) [OF rid] ih(3) ih(4)) simp
  have c5: "\<forall>h. written (responses (sendEvent c et m rid p now ?mid) h)
            = written (responses s h) @
                concat (map (\<lambda>c. case map_of (clients s) c of
                                    None \<Rightarrow> []
                                  | Some cl \<Rightarrow>
                                      if response cl = h
                                      then [EventLine et,
                                            DataLine \<lparr>ed_type = et, ed_message = m,
                                                      ed_requestId = rid, ed_timestamp = now,
                                                      ed_data = p\<rparr>]
                                      else []) (cs @ [c]))"
    by (simp only: step(4) ih(5)) (simp add: cl)
  from c1 c2 c3 c4 c5 have
    "clients (sendEvent c et m rid p now ?mid) = clients s
    \<and> (\<forall>h. writeThrows (responses (sendEvent c et m rid p now ?mid) h)
            = writeThrows (responses s h))
    \<and> currentEventId (sendEvent c et m rid p now ?mid)
        = currentEventId s + length (cs @ [c])
    \<and> getSseEvents rid (sendEvent c et m rid p now ?mid)
        = getSseEvents rid s @
            map (\<lambda>i. \<lparr>ev_id = currentEventId s + i, ev_requestId = rid,
                       ev_eventType = toUpperCase et, ev_message = m, ev_timestamp = now\<rparr>)
              [0..<length (cs @ [c])]
    \<and> (\<forall>h. written (responses (sendEvent c et m rid p now ?mid) h)
            = written (responses s h) @
                concat (map (\<lambda>c. case map_of (clients s) c of
                                    None \<Rightarrow> []
                                  | Some cl \<Rightarrow>
                                      if response cl = h
                                      then [EventLine et,
                                            DataLine \<lparr>ed_type = et, ed_message = m,
                                                      ed_requestId = rid, ed_timestamp = now,
                                                      ed_data = p\<rparr>]
                                      else []) (cs @ [c])))"
    by (intro conjI)
  then show ?case unfolding eq .
qed

lemma map_of_key: "distinct (map fst xs) \<Longrightarrow> q \<in> set xs \<Longrightarrow> map_of xs (fst q) = Some (snd q)"
  by (cases q) simp

lemma concat_map_keys:
  assumes d: "distinct (map fst xs)"
  shows "concat (map (\<lambda>k. case map_of xs k of None \<Rightarrow> [] | Some v \<Rightarrow> g v) (map fst xs))
           = concat (map (\<lambda>q. g (snd q)) xs)"
proof -
  have "map (\<lambda>k. case map_of xs k of None \<Rightarrow> [] | Some v \<Rightarrow> g v) (map fst xs)
        = map (\<lambda>q. g (snd q)) xs"
    by (auto simp add: map_of_key [OF d])
  then show ?thesis by (simp only:)
qed

lemma registered_key:
  "c \<in> set (map fst xs) \<Longrightarrow> \<exists>v. map_of xs c = Some v \<and> (c, v) \<in> set xs"
  by (induction xs) auto

section \<open>One entry per client id\<close>

lemma clients_sendEvent:
  "clients (sendEvent c et m rid p now s) = clients s
   \<or> clients (sendEvent c et m rid p now s) = AList.delete c (clients s)"
  by (auto simp add: sendEvent_def Let_def removeClient_def end_response_def write_chunks_def
      createSseEvent_def split: option.splits)

lemma distinct_clients_sendEvent:
  "distinct (map fst (clients s)) \<Longrightarrow> distinct (map fst (clients (sendEvent c et m rid p now s)))"
  using clients_sendEvent [of c et m rid p now s] by (auto simp add: distinct_delete)

lemma distinct_clients_foldl:
  "distinct (map fst (clients s)) \<Longrightarrow>
   distinct (map fst (clients (foldl (\<lambda>st c. sendEvent c et m rid p now st) s cs)))"
  by (induction cs arbitrary: s) (simp_all add: distinct_clients_sendEvent)

lemma distinct_clients_addClient:
  "distinct (map fst (clients s)) \<Longrightarrow> distinct (map fst (clients (addClient c h l now s)))"
  by (simp add: addClient_def Let_def distinct_clients_sendEvent distinct_update)

lemma distinct_clients_removeClient:
  "distinct (map fst (clients s)) \<Longrightarrow> distinct (map fst (clients (removeClient c s)))"
  by (simp add: removeClient_def end_response_def distinct_delete split: option.splits)

lemma reachable_distinct_clients: "reachable s \<Longrightarrow> distinct (map fst (clients s))"
proof (induction rule: reachable.induct)
  case r_init
  show ?case by (simp add: init_state_def)
next
  case (r_broadcast s et m rid p now)
  then show ?case by (simp add: broadcast_def distinct_clients_foldl)
qed (simp_all add: distinct_clients_sendEvent distinct_clients_addClient
      distinct_clients_removeClient createChartRequest_def updateChartRequest_def
      createSseEvent_def Let_def split: option.splits)

section \<open>Broadcast\<close>

text \<open>
  C4, amended. In a reachable state in which no registered stream throws on a write, a
  broadcast with a request id other than \<^verbatim>\<open>system\<close> writes the event line and the data
  line to the stream of every registered session and appends one copy of the event to the
  history of the request for each registered session, with consecutive ids: as many
  copies as there are sessions. The sessions stay registered.
\<close>

theorem broadcast_stores_once_per_session:
  assumes "reachable s" and "rid \<noteq> ''system''"
    and "\<forall>q \<in> set (clients s). \<not> writeThrows (responses s (response (snd q)))"
  shows "getSseEvents rid (broadcast et m rid p now s)
           = getSseEvents rid s @
               map (\<lambda>i. \<lparr>ev_id = currentEventId s + i, ev_requestId = rid,
                          ev_eventType = toUpperCase et, ev_message = m, ev_timestamp = now\<rparr>)
                 [0..<getClientCount s]
         \<and> written (responses (broadcast et m rid p now s) h)
             = written (responses s h) @
                 concat (map (\<lambda>q. if response (snd q) = h
                                   then [EventLine et,
                                         DataLine \<lparr>ed_type = et, ed_message = m,
                                                   ed_requestId = rid, ed_timestamp = now,
                                                   ed_data = p\<rparr>]
                                   else []) (clients s))
         \<and> clients (broadcast et m rid p now s) = clients s"
proof -
  have d: "distinct (map fst (clients s))"
    using assms(1) by (rule reachable_distinct_clients)
  have ok: "\<forall>c \<in> set (map fst (clients s)). \<exists>cl. map_of (clients s) c = Some cl
                \<and> \<not> writeThrows (responses s (response cl))"
  proof
    fix c assume "c \<in> set (map fst (clients s))"
    then obtain v where v: "map_of (clients s) c = Some v" and "(c, v) \<in> set (clients s)"
      using registered_key [of c "clients s"] by blast
    with assms(3) have "\<not> writeThrows (responses s (response (snd (c, v))))"
      by (rule_tac bspec)
    with v show "\<exists>cl. map_of (clients s) c = Some cl
                \<and> \<not> writeThrows (responses s (response cl))"
      by simp
  qed
  note all = foldl_sendEvent_delivered [OF assms(2) ok, where et = et and m = m and p = p
      and now = now]
  note e1 = all [THEN conjunct1]
  note e4 = all [THEN conjunct2, THEN conjunct2, THEN conjunct2, THEN conjunct1]
  note e5 = all [THEN conjunct2, THEN conjunct2, THEN conjunct2, THEN conjunct2, THEN spec,
      of h]
  have a: "getSseEvents rid (broadcast et m rid p now s)
           = getSseEvents rid s @
               map (\<lambda>i. \<lparr>ev_id = currentEventId s + i, ev_requestId = rid,
                          ev_eventType = toUpperCase et, ev_message = m, ev_timestamp = now\<rparr>)
                 [0..<getClientCount s]"
    by (simp only: broadcast_def getClientCount_def e4 length_map)
  have b: "written (responses (broadcast et m rid p now s) h)
             = written (responses s h) @
                 concat (map (\<lambda>q. if response (snd q) = h
                                   then [EventLine et,
                                         DataLine \<lparr>ed_type = et, ed_message = m,
                                                   ed_requestId = rid, ed_timestamp = now,
                                                   ed_data = p\<rparr>]
                                   else []) (clients s))"
    by (simp only: broadcast_def e5 concat_map_keys [OF d])
  have c: "clients (broadcast et m rid p now s) = clients s"
    by (simp only: broadcast_def e1)
  from a b c show ?thesis by (intro conjI)
qed

lemma two_sessions_fields:
  "clients two_sessions = [(''c1'', \<lparr>client_id = ''c1'', response = 7, lastEventId = None\<rparr>),
                           (''c2'', \<lparr>client_id = ''c2'', response = 8, lastEventId = None\<rparr>)]"
  "writeThrows (responses two_sessions h) = False"
  "sseEvents two_sessions = Map.empty" "currentEventId two_sessions = 1"
  by (simp_all add: two_sessions_def addClient_def sendEvent_def write_chunks_def
      one_session_fields)

lemma reachable_two_sessions: "reachable two_sessions"
  unfolding two_sessions_def by (intro reachable.intros reachable_one_session)

text \<open>
  C4, as the code has it. \<^verbatim>\<open>broadcast\<close> calls \<^verbatim>\<open>sendEvent\<close> once per session, and every
  call stores the event: with two sessions registered, one broadcast leaves two copies of
  the event in the history of the request.
\<close>

theorem broadcast_two_copies:
  "getClientCount two_sessions = 2 \<and> ''req_5_1'' \<noteq> ''system''
   \<and> map ev_id (getSseEvents ''req_5_1''
        (broadcast ''progress'' ''Preparing chart request...'' ''req_5_1'' None 6 two_sessions))
       = [1, 2]
   \<and> map ev_message (getSseEvents ''req_5_1''
        (broadcast ''progress'' ''Preparing chart request...'' ''req_5_1'' None 6 two_sessions))
       = [''Preparing chart request...'', ''Preparing chart request...'']"
  by (simp add: getClientCount_def broadcast_def two_sessions_fields sendEvent_def
      write_chunks_def createSseEvent_def getSseEvents_def Let_def)

theorem broadcast_stores_once_per_session_witness:
  "reachable two_sessions \<and> ''req_5_1'' \<noteq> ''system''
   \<and> \<not> writeThrows (responses two_sessions 7) \<and> \<not> writeThrows (responses two_sessions 8)
   \<and> getSseEvents ''req_5_1''
        (broadcast ''progress'' ''Preparing chart request...'' ''req_5_1'' None 6 two_sessions)
       = [\<lparr>ev_id = 1, ev_requestId = ''req_5_1'', ev_eventType = ''PROGRESS'',
           ev_message = ''Preparing chart request...'', ev_timestamp = 6\<rparr>,
          \<lparr>ev_id = 2, ev_requestId = ''req_5_1'', ev_eventType = ''PROGRESS'',
           ev_message = ''Preparing chart request...'', ev_timestamp = 6\<rparr>]
   \<and> written (responses
        (broadcast ''progress'' ''Preparing chart request...'' ''req_5_1'' None 6 two_sessions) 8)
       = written (responses two_sessions 8) @
           [EventLine ''progress'',
            DataLine \<lparr>ed_type = ''progress'', ed_message = ''Preparing chart request...'',
                      ed_requestId = ''req_5_1'', ed_timestamp = 6, ed_data = None\<rparr>]"
proof -
  have rid: "''req_5_1'' \<noteq> ''system''" by simp
  have fine: "\<forall>q \<in> set (clients two_sessions).
                \<not> writeThrows (responses two_sessions (response (snd q)))"
    by (simp add: two_sessions_fields)
  have up: "[0..<2] = [0, Suc 0]" by (simp add: upt_rec)
  show ?thesis
    using broadcast_stores_once_per_session [OF reachable_two_sessions rid fine,
        of "''progress''" "''Preparing chart request...''" None 6 8]
      reachable_two_sessions
    by (simp add: two_sessions_fields getClientCount_def getSseEvents_def toUpperCase_def
        upper_char_def up)
qed

section \<open>Registering a client id twice\<close>













section \<open>Recent requests\<close>

lemma slice0_take: "\<exists>n. slice0 limit xs = take n xs"
  by (auto simp add: slice0_def)

lemma sorted_recent_all:
  "sorted_wrt (\<lambda>a b. createdAt b \<le> createdAt a)
     (sort_key (\<lambda>r. - int (createdAt r)) xs)"
proof -
  have "sorted (map (\<lambda>r. - int (createdAt r)) (sort_key (\<lambda>r. - int (createdAt r)) xs))"
    by (rule sorted_sort_key)
  then show ?thesis by (simp add: sorted_map)
qed

lemma append_two_eq: "xs @ [a, b] = ys @ [c, d] \<longleftrightarrow> xs = ys \<and> a = c \<and> b = d"
proof -
  have "xs @ [a, b] = (xs @ [a]) @ [b]" "ys @ [c, d] = (ys @ [c]) @ [d]" by simp_all
  then show ?thesis by (simp only: append1_eq_conv) blast
qed

lemma three_requests_ledger:
  "map (\<lambda>r. (cr_id r, createdAt r)) (map snd (chartRequests (three_requests t1 t2 t3)))
     = [(1, t1), (2, t2), (3, t3)]"
  by (simp add: three_requests_def createChartRequest_def init_state_def Let_def
      show_nat_digit digit_char_def append_two_eq)

text \<open>
  C6, as the code has it. The comparator looks at the creation time only, and the sort is
  stable: three requests created in the same millisecond stay in insertion order, so the
  two most recent are reported as the requests with ids 1 and 2, the lower ids first. A
  negative limit is handed to \<^verbatim>\<open>slice\<close>, which then drops from the end: with the limit
  \<open>-1\<close> two of three requests are returned.
\<close>

theorem recent_ties_counterexample:
  "map cr_id (map snd (chartRequests (three_requests 5 5 5))) = [1, 2, 3]
   \<and> map cr_id (getRecentChartRequests 2 (three_requests 5 5 5)) = [1, 2]
   \<and> length (getRecentChartRequests (- 1) (three_requests 5 6 7)) = 2"
  by (simp add: getRecentChartRequests_def slice0_def three_requests_def createChartRequest_def
      init_state_def Let_def show_nat_digit digit_char_def append_two_eq)

lemma three_requests_recent:
  "t1 < t2 \<Longrightarrow> t2 < t3 \<Longrightarrow> map cr_id (getRecentChartRequests 2 (three_requests t1 t2 t3)) = [3, 2]"
  by (simp add: getRecentChartRequests_def slice0_def three_requests_def createChartRequest_def
      init_state_def Let_def show_nat_digit digit_char_def append_two_eq)

text \<open>
  C6, amended. \<^verbatim>\<open>getRecentChartRequests\<close> returns the requests ordered newest first by
  creation time; for a limit that is not negative it returns the first \<open>limit\<close> of them
  (all of them when there are fewer), and for a negative limit all but the last
  \<open>- limit\<close>. Requests with the same creation time keep their insertion order, the
  earlier one first. Three requests created on the initial state at strictly increasing
  times are reported, with the limit 2, as the third and then the second.
\<close>

theorem recent_requests_order:
  "sorted_wrt (\<lambda>a b. createdAt b \<le> createdAt a) (getRecentChartRequests limit s)
   \<and> (0 \<le> limit \<longrightarrow>
        getRecentChartRequests limit s
          = take (nat limit) (getRecentChartRequests (int (length (chartRequests s))) s)
        \<and> length (getRecentChartRequests limit s) = min (nat limit) (length (chartRequests s)))
   \<and> (limit < 0 \<longrightarrow>
        getRecentChartRequests limit s
          = take (nat (int (length (chartRequests s)) + limit))
              (getRecentChartRequests (int (length (chartRequests s))) s))
   \<and> filter (\<lambda>r. createdAt r = t) (getRecentChartRequests (int (length (chartRequests s))) s)
       = filter (\<lambda>r. createdAt r = t) (map snd (chartRequests s))
   \<and> (t1 < t2 \<and> t2 < t3 \<longrightarrow>
        map cr_id (getRecentChartRequests 2 (three_requests t1 t2 t3)) = [3, 2])"
proof -
  obtain n where n: "getRecentChartRequests limit s
      = take n (sort_key (\<lambda>r. - int (createdAt r)) (map snd (chartRequests s)))"
    unfolding getRecentChartRequests_def using slice0_take by blast
  have a: "sorted_wrt (\<lambda>a b. createdAt b \<le> createdAt a) (getRecentChartRequests limit s)"
    unfolding n by (intro sorted_wrt_take sorted_recent_all)
  have full: "getRecentChartRequests (int (length (chartRequests s))) s
                = sort_key (\<lambda>r. - int (createdAt r)) (map snd (chartRequests s))"
    by (simp add: getRecentChartRequests_def slice0_def)
  have b: "0 \<le> limit \<longrightarrow>
        getRecentChartRequests limit s
          = take (nat limit) (getRecentChartRequests (int (length (chartRequests s))) s)
        \<and> length (getRecentChartRequests limit s) = min (nat limit) (length (chartRequests s))"
    unfolding full by (simp add: getRecentChartRequests_def slice0_def min_def)
  have b': "limit < 0 \<longrightarrow>
        getRecentChartRequests limit s
          = take (nat (int (length (chartRequests s)) + limit))
              (getRecentChartRequests (int (length (chartRequests s))) s)"
    unfolding full by (simp add: getRecentChartRequests_def slice0_def)
  have "filter (\<lambda>r. - int (createdAt r) = - int t)
          (sort_key (\<lambda>r. - int (createdAt r)) (map snd (chartRequests s)))
        = filter (\<lambda>r. - int (createdAt r) = - int t) (map snd (chartRequests s))"
    by (rule sort_key_stable)
  then have c: "filter (\<lambda>r. createdAt r = t)
          (getRecentChartRequests (int (length (chartRequests s))) s)
       = filter (\<lambda>r. createdAt r = t) (map snd (chartRequests s))"
    unfolding full by simp
  have d: "t1 < t2 \<and> t2 < t3 \<longrightarrow>
        map cr_id (getRecentChartRequests 2 (three_requests t1 t2 t3)) = [3, 2]"
    by (simp add: three_requests_recent)
  from a b b' c d show ?thesis by (intro conjI)
qed

theorem recent_requests_order_witness:
  "(0::int) \<le> 2 \<and> (5::nat) < 6 \<and> (6::nat) < 7
   \<and> map cr_id (getRecentChartRequests 2 (three_requests 5 6 7)) = [3, 2]
   \<and> length (getRecentChartRequests 2 (three_requests 5 6 7)) = 2
   \<and> map cr_id (filter (\<lambda>r. createdAt r = 5)
        (getRecentChartRequests 3 (three_requests 5 5 7))) = [1, 2]"
proof -
  have len: "length (chartRequests (three_requests t1 t2 t3)) = 3" for t1 t2 t3
    using arg_cong [OF three_requests_ledger [of t1 t2 t3], of length] by simp
  have ties: "map cr_id (filter (\<lambda>r. createdAt r = 5)
        (map snd (chartRequests (three_requests 5 5 7)))) = [1, 2]"
    by (simp add: three_requests_def createChartRequest_def
      init_state_def Let_def show_nat_digit digit_char_def append_two_eq)
  have scenario: "map cr_id (getRecentChartRequests 2 (three_requests 5 6 7)) = [3, 2]"
    using recent_requests_order [of 2 "three_requests 5 6 7" 5 5 6 7,
        THEN conjunct2, THEN conjunct2, THEN conjunct2, THEN conjunct2]
    by simp
  have two: "length (getRecentChartRequests 2 (three_requests 5 6 7)) = 2"
    using arg_cong [OF scenario, of length] by simp
  note stable = recent_requests_order [of 3 "three_requests 5 5 7" 5 5 6 7,
      THEN conjunct2, THEN conjunct2, THEN conjunct2, THEN conjunct1]
  have tied: "map cr_id (filter (\<lambda>r. createdAt r = 5)
        (getRecentChartRequests 3 (three_requests 5 5 7))) = [1, 2]"
    using stable ties by (simp add: len)
  from scenario two tied show ?thesis by simp
qed

section \<open>Frames of the chart service\<close>

lemma sendEvent_if_Some: "c \<noteq> [] \<Longrightarrow> sendEvent_if (Some c) et m rid p now s = sendEvent c et m rid p now s"
  by (simp add: sendEvent_if_def)

lemma chartRequests_generateChart_begin [simp]:
  "chartRequests (generateChart_begin rid cid now s) = chartRequests s"
  by (simp add: generateChart_begin_def Let_def)

lemma chartRequests_generateChart_resume:
  "chartRequests (snd (generateChart_resume outcome rid cid st now el s)) = chartRequests s"
  by (cases outcome)
    (simp_all add: generateChart_resume_def generateChart_catch_def generateChart_success_def
      Let_def)

lemma res_success_generateChart_resume:
  "res_success (fst (generateChart_resume outcome rid cid st now el s))
     = (case outcome of Json_body u b \<Rightarrow> True | Png_body b \<Rightarrow> True | _ \<Rightarrow> False)"
  by (cases outcome)
    (simp_all add: generateChart_resume_def generateChart_catch_def generateChart_success_def
      Let_def)

lemma still_delivered:
  assumes "map_of (clients s) c = Some cl" and "\<not> writeThrows (responses s (response cl))"
  shows "map_of (clients (sendEvent c et m rid p now s)) c = Some cl"
    and "\<not> writeThrows (responses (sendEvent c et m rid p now s) (response cl))"
  using assms sendEvent_delivered(1,2) [OF assms] by simp_all

lemma processing_example_fields:
  "clients processing_example = clients one_session"
  "writeThrows (responses processing_example h) = False"
  "map_option status (getChartRequest ''req_5_1'' processing_example) = Some ''processing''"
  by (simp_all add: processing_example_def route_generate_def parse_example generate_accept_def
      createChartRequest_def updateChartRequest_def spread_def generateChart_begin_def
      sendEvent_if_def sendEvent_def write_chunks_def createSseEvent_def getChartRequest_def
      one_session_fields example_config_def show_nat_5_1 Let_def)

section \<open>The handlers stay within the reachable states\<close>

lemma reachable_write_chunks: "reachable s \<Longrightarrow> reachable (write_chunks h cs s)"
  unfolding write_chunks_def by (rule reachable.r_streams)

lemma reachable_sendEvent_if: "reachable s \<Longrightarrow> reachable (sendEvent_if cid et m rid p now s)"
  by (simp add: sendEvent_if_def reachable.r_sendEvent split: option.splits)

lemma reachable_heartbeat: "reachable s \<Longrightarrow> reachable (heartbeat c h s)"
  by (simp add: heartbeat_def reachable_write_chunks)

lemma reachable_on_close: "reachable s \<Longrightarrow> reachable (on_close c s)"
  by (simp add: on_close_def reachable.r_removeClient)

lemma reachable_handleSSEConnection:
  "reachable s \<Longrightarrow> handleSSEConnection q g l h now s = Some s' \<Longrightarrow> reachable s'"
  by (auto simp add: handleSSEConnection_def Let_def reachable.r_addClient reachable_write_chunks
      split: if_splits)

lemma reachable_generateChart_begin:
  "reachable s \<Longrightarrow> reachable (generateChart_begin rid cid now s)"
  by (simp add: generateChart_begin_def Let_def reachable_sendEvent_if)

lemma reachable_generateChart_resume:
  "reachable s \<Longrightarrow> reachable (snd (generateChart_resume outcome rid cid st now el s))"
  by (cases outcome)
    (simp_all add: generateChart_resume_def generateChart_catch_def generateChart_success_def
      Let_def reachable_sendEvent_if)

lemma reachable_generate_then: "reachable s \<Longrightarrow> reachable (generate_then result rid now s)"
  by (simp add: generate_then_def reachable.r_updateChartRequest)

lemma reachable_generate_settle:
  "reachable s \<Longrightarrow> reachable (generate_settle outcome rid cid st now el s)"
  by (simp add: generate_settle_def split_beta reachable_generate_then
      reachable_generateChart_resume)

lemma reachable_generate_accept:
  "reachable s \<Longrightarrow> reachable (snd (generate_accept cfg cid now s))"
  by (simp add: generate_accept_def split_beta reachable_sendEvent_if
      reachable.r_createChartRequest)

lemma reachable_route_generate:
  "reachable s \<Longrightarrow> reachable (snd (route_generate body cid now s))"
proof (cases "chartConfigSchema_parse body")
  case (Inl e)
  assume "reachable s"
  with Inl show ?thesis by (cases e) (simp add: route_generate_def)
next
  case (Inr cfg)
  assume "reachable s"
  with Inr show ?thesis
    by (simp add: route_generate_def split_beta Let_def reachable_generateChart_begin
        reachable.r_updateChartRequest reachable_generate_accept)
qed

section \<open>The runs of a chart generation\<close>

lemma generateChart_resume_runs:
  "generateChart_resume outcome rid cid st now el s
     = generateChart_body outcome rid cid st now el (generateChart_head outcome rid cid now s)"
  by (cases outcome)
    (simp_all add: generateChart_resume_def generateChart_body_def generateChart_head_def)

lemma generate_settle_runs:
  "generate_settle outcome rid cid st now el s
     = generate_finish outcome rid cid st now el (generateChart_head outcome rid cid now s)"
  by (simp add: generate_settle_def generate_finish_def generateChart_resume_runs)

section \<open>Request ids are fresh\<close>

lemma digit_char_digit: "d < 10 \<Longrightarrow> digit_char d \<in> set ''0123456789''"
  unfolding digit_char_def by (rule nth_mem) simp

lemma digit_char_inj: "a < 10 \<Longrightarrow> b < 10 \<Longrightarrow> digit_char a = digit_char b \<Longrightarrow> a = b"
  unfolding digit_char_def
  by (subst (asm) nth_eq_iff_index_eq) simp_all

lemma show_nat_digits: "set (show_nat n) \<subseteq> set ''0123456789''"
proof (induction n rule: show_nat.induct)
  case (1 n)
  show ?case
  proof (cases "n < 10")
    case True
    then show ?thesis
      using digit_char_digit [of n] by (simp add: show_nat.simps [of n])
  next
    case False
    have "n mod 10 < 10" by simp
    from digit_char_digit [OF this] "1.IH" [OF False] False show ?thesis
      by (simp add: show_nat.simps [of n])
  qed
qed

lemma show_nat_nonempty: "show_nat n \<noteq> []"
  by (simp add: show_nat.simps [of n])

lemma show_nat_inj: "show_nat n = show_nat m \<Longrightarrow> n = m"
proof (induction n arbitrary: m rule: show_nat.induct)
  case (1 n)
  show ?case
  proof (cases "n < 10")
    case small: True
    show ?thesis
    proof (cases "m < 10")
      case True
      with small "1.prems" show ?thesis
        by (simp add: show_nat.simps [of n] show_nat.simps [of m] digit_char_inj)
    next
      case False
      with small "1.prems" show_nat_nonempty [of "m div 10"] show ?thesis
        by (simp add: show_nat.simps [of n] show_nat.simps [of m])
    qed
  next
    case big: False
    show ?thesis
    proof (cases "m < 10")
      case True
      with big "1.prems" show_nat_nonempty [of "n div 10"] show ?thesis
        by (simp add: show_nat.simps [of n] show_nat.simps [of m])
    next
      case False
      with big "1.prems" have "show_nat (n div 10) = show_nat (m div 10)"
        and "digit_char (n mod 10) = digit_char (m mod 10)"
        by (simp_all add: show_nat.simps [of n] show_nat.simps [of m])
      then have "n div 10 = m div 10" and "n mod 10 = m mod 10"
        using "1.IH" [OF big] digit_char_inj [of "n mod 10" "m mod 10"] by simp_all
      then show ?thesis by (metis div_mult_mod_eq)
    qed
  qed
qed

lemma split_at_last:
  assumes "c \<notin> set b" and "c \<notin> set b'" and "a @ c # b = a' @ c # b'"
  shows "b = b'"
proof -
  have "takeWhile (\<lambda>x. x \<noteq> c) (rev (a @ c # b)) = rev b"
    using assms(1) by (auto simp add: takeWhile_tail)
  moreover have "takeWhile (\<lambda>x. x \<noteq> c) (rev (a' @ c # b')) = rev b'"
    using assms(2) by (auto simp add: takeWhile_tail)
  ultimately have "rev b = rev b'" using assms(3) by simp
  then show ?thesis by simp
qed

lemma underscore_no_digit: "CHR ''_'' \<notin> set (show_nat n)"
  using show_nat_digits [of n] by auto

lemma requestId_inj:
  assumes "''req_'' @ show_nat t @ ''_'' @ show_nat i = ''req_'' @ show_nat t' @ ''_'' @ show_nat i'"
  shows "i = i'"
proof -
  from assms have "(''req_'' @ show_nat t) @ CHR ''_'' # show_nat i
                     = (''req_'' @ show_nat t') @ CHR ''_'' # show_nat i'"
    by simp
  from split_at_last [OF underscore_no_digit underscore_no_digit this]
  show ?thesis by (rule show_nat_inj)
qed

lemma fresh_requestId:
  assumes "keys_inv s"
  shows "map_of (chartRequests s) (''req_'' @ show_nat now @ ''_'' @ show_nat (currentChartId s))
           = None"
proof (rule ccontr)
  assume "map_of (chartRequests s) (''req_'' @ show_nat now @ ''_'' @ show_nat (currentChartId s))
            \<noteq> None"
  then have "''req_'' @ show_nat now @ ''_'' @ show_nat (currentChartId s)
               \<in> fst ` set (chartRequests s)"
    by (simp add: map_of_eq_None_iff)
  with assms obtain t i
    where "''req_'' @ show_nat now @ ''_'' @ show_nat (currentChartId s)
             = ''req_'' @ show_nat t @ ''_'' @ show_nat i"
      and "i < currentChartId s"
    unfolding keys_inv_def by blast
  from requestId_inj [OF this(1)] this(2) show False by simp
qed

section \<open>What a run writes to the streams\<close>

lemma DataLine_sendEvent:
  "DataLine d \<in> set (written (responses (sendEvent c et m rid p now s) h)) \<Longrightarrow>
   DataLine d \<in> set (written (responses s h)) \<or> (ed_requestId d = rid \<and> ed_type d = et)"
  by (auto simp add: sendEvent_def removeClient_def end_response_def write_chunks_def
      createSseEvent_def Let_def split: option.splits if_splits)

lemma DataLine_sendEvent_if:
  "DataLine d \<in> set (written (responses (sendEvent_if cid et m rid p now s) h)) \<Longrightarrow>
   DataLine d \<in> set (written (responses s h)) \<or> (ed_requestId d = rid \<and> ed_type d = et)"
  by (auto simp add: sendEvent_if_def dest: DataLine_sendEvent split: option.splits if_splits)

lemma DataLine_addClient:
  "DataLine d \<in> set (written (responses (addClient c res l now s) h)) \<Longrightarrow>
   DataLine d \<in> set (written (responses s h)) \<or> ed_requestId d = ''system''"
  by (auto simp add: addClient_def Let_def dest!: DataLine_sendEvent)

lemma DataLine_write_chunks:
  "\<forall>d. DataLine d \<notin> set cs \<Longrightarrow>
   DataLine d \<in> set (written (responses (write_chunks res cs s) h)) \<Longrightarrow>
   DataLine d \<in> set (written (responses s h))"
  by (auto simp add: write_chunks_def split: if_splits)

lemma DataLine_removeClient:
  "DataLine d \<in> set (written (responses (removeClient c s) h)) \<Longrightarrow>
   DataLine d \<in> set (written (responses s h))"
  by (auto simp add: removeClient_def end_response_def split: option.splits if_splits)

lemma chartRequests_addClient [simp]: "chartRequests (addClient c res l now s) = chartRequests s"
  by (simp add: addClient_def Let_def)

lemma chartRequests_removeClient [simp]: "chartRequests (removeClient c s) = chartRequests s"
  by (simp add: removeClient_def end_response_def split: option.splits)

lemma chartRequests_write_chunks [simp]: "chartRequests (write_chunks res cs s) = chartRequests s"
  by (simp add: write_chunks_def)

lemma currentChartId_sendEvent [simp]:
  "currentChartId (sendEvent c et m rid p now s) = currentChartId s"
  by (simp add: sendEvent_def Let_def removeClient_def end_response_def write_chunks_def
      createSseEvent_def split: option.splits)

lemma currentChartId_sendEvent_if [simp]:
  "currentChartId (sendEvent_if cid et m rid p now s) = currentChartId s"
  by (simp add: sendEvent_if_def split: option.splits)

lemma currentChartId_addClient [simp]: "currentChartId (addClient c res l now s) = currentChartId s"
  by (simp add: addClient_def Let_def)

lemma currentChartId_removeClient [simp]: "currentChartId (removeClient c s) = currentChartId s"
  by (simp add: removeClient_def end_response_def split: option.splits)

lemma currentChartId_write_chunks [simp]: "currentChartId (write_chunks res cs s) = currentChartId s"
  by (simp add: write_chunks_def)

section \<open>Covered events, step by step\<close>

lemma events_covered_quiet:
  assumes "events_covered s"
    and "chartRequests s' = chartRequests s"
    and "\<And>h d. DataLine d \<in> set (written (responses s' h)) \<Longrightarrow>
           DataLine d \<in> set (written (responses s h)) \<or> ed_requestId d = ''system''"
  shows "events_covered s'"
  using assms unfolding events_covered_def by metis

lemma events_covered_step:
  assumes inv: "events_covered s"
    and streams: "\<And>h d. DataLine d \<in> set (written (responses s' h)) \<Longrightarrow>
           DataLine d \<in> set (written (responses s h)) \<or> (ed_requestId d = rid \<and> ed_type d \<in> T)"
    and others: "\<And>k. k \<noteq> rid \<Longrightarrow> map_of (chartRequests s') k = map_of (chartRequests s) k"
    and entry: "map_of (chartRequests s') rid = Some r'"
    and new: "\<And>t. t \<in> T \<Longrightarrow> status_covers t (status r')"
    and old: "\<And>r t. map_of (chartRequests s) rid = Some r \<Longrightarrow> status_covers t (status r)
                \<Longrightarrow> status_covers t (status r')"
  shows "events_covered s'"
  unfolding events_covered_def
proof (intro allI impI)
  fix h d
  assume "DataLine d \<in> set (written (responses s' h))"
  from streams [OF this]
  show "ed_requestId d = ''system''
        \<or> (\<exists>r. map_of (chartRequests s') (ed_requestId d) = Some r
                \<and> status_covers (ed_type d) (status r))"
  proof
    assume "DataLine d \<in> set (written (responses s h))"
    with inv have "ed_requestId d = ''system''
        \<or> (\<exists>r. map_of (chartRequests s) (ed_requestId d) = Some r
                \<and> status_covers (ed_type d) (status r))"
      unfolding events_covered_def by blast
    then show ?thesis
    proof
      assume "ed_requestId d = ''system''"
      then show ?thesis by simp
    next
      assume "\<exists>r. map_of (chartRequests s) (ed_requestId d) = Some r
                \<and> status_covers (ed_type d) (status r)"
      then obtain r where r: "map_of (chartRequests s) (ed_requestId d) = Some r"
        and c: "status_covers (ed_type d) (status r)" by blast
      show ?thesis
      proof (cases "ed_requestId d = rid")
        case True
        with r c old have "status_covers (ed_type d) (status r')" by blast
        with True entry show ?thesis by simp
      next
        case False
        from others [OF False] r c show ?thesis by simp
      qed
    qed
  next
    assume "ed_requestId d = rid \<and> ed_type d \<in> T"
    with entry new show ?thesis by simp
  qed
qed

lemma run_inv_quiet:
  assumes "run_inv s fl"
    and "chartRequests s' = chartRequests s" and "currentChartId s' = currentChartId s"
    and "\<And>h d. DataLine d \<in> set (written (responses s' h)) \<Longrightarrow>
           DataLine d \<in> set (written (responses s h)) \<or> ed_requestId d = ''system''"
  shows "run_inv s' fl"
proof -
  from assms(1) have a: "events_covered s" and b: "in_flight_inv s fl" and c: "keys_inv s"
    by (simp_all add: run_inv_def)
  have "events_covered s'"
    using a assms(2) assms(4) by (rule events_covered_quiet)
  moreover have "in_flight_inv s' fl"
    using b by (simp add: in_flight_inv_def assms(2))
  moreover have "keys_inv s'"
    using c by (simp add: keys_inv_def assms(2) assms(3))
  ultimately show ?thesis by (simp add: run_inv_def)
qed

lemma run_inv_addClient: "run_inv s fl \<Longrightarrow> run_inv (addClient c res l now s) fl"
  by (erule run_inv_quiet) (simp_all add: DataLine_addClient)

lemma run_inv_on_close: "run_inv s fl \<Longrightarrow> run_inv (on_close c s) fl"
  by (erule run_inv_quiet) (simp_all add: on_close_def DataLine_removeClient)

lemma run_inv_write_chunks:
  assumes "\<forall>d. DataLine d \<notin> set cs" and "run_inv s fl"
  shows "run_inv (write_chunks res cs s) fl"
  using assms(2)
proof (rule run_inv_quiet)
  fix h d
  assume "DataLine d \<in> set (written (responses (write_chunks res cs s) h))"
  from DataLine_write_chunks [OF assms(1) this]
  show "DataLine d \<in> set (written (responses s h)) \<or> ed_requestId d = ''system''" ..
qed simp_all

lemma run_inv_heartbeat: "run_inv s fl \<Longrightarrow> run_inv (heartbeat c res s) fl"
  by (simp add: heartbeat_def run_inv_write_chunks)

lemma run_inv_handleSSEConnection:
  "run_inv s fl \<Longrightarrow> handleSSEConnection q g l res now s = Some s' \<Longrightarrow> run_inv s' fl"
  by (auto simp add: handleSSEConnection_def Let_def run_inv_addClient run_inv_write_chunks
      split: if_splits)

lemma run_inv_stream:
  "run_inv s fl \<Longrightarrow>
   run_inv (s\<lparr>responses := (responses s)(res := (responses s res)\<lparr>writeThrows := b\<rparr>)\<rparr>) fl"
  by (erule run_inv_quiet) (auto split: if_splits)

section \<open>The run of the generate handler\<close>

lemma route_generate_Bad_request:
  "route_generate body cid now s = (Bad_request issues, s') \<Longrightarrow> s' = s"
  by (auto simp add: route_generate_def split_beta Let_def split: sum.splits ZodError.splits)

lemma route_generate_runs:
  assumes "chartConfigSchema_parse body = Inr config"
    and "createChartRequest config now s = (chartRequest, s1)"
  shows "route_generate body cid now s
     = (Ok_processing (requestId chartRequest),
        generateChart_begin (requestId chartRequest) cid now
          (route_started config (requestId chartRequest) cid now s1))"
  using assms
  by (simp add: route_generate_def generate_accept_def route_started_def Let_def)

lemma remove1_key:
  assumes "distinct (map fst fl)" and "e \<in> set fl" and "e' \<in> set (remove1 e fl)"
  shows "fst e' \<noteq> fst e \<and> e' \<in> set fl"
proof -
  from assms(1) have d: "distinct fl" and inj: "inj_on fst (set fl)"
    by (simp_all add: distinct_map)
  from assms(3) d have "e' \<in> set fl" and "e' \<noteq> e" by simp_all
  with inj assms(2) show ?thesis by (auto dest: inj_onD)
qed

lemma distinct_map_fst_remove1:
  "distinct (map fst fl) \<Longrightarrow> distinct (map fst (remove1 e fl))"
proof -
  assume "distinct (map fst fl)"
  then have "distinct fl" and "inj_on fst (set fl)" by (simp_all add: distinct_map)
  then have "distinct (remove1 e fl)" and "inj_on fst (set (remove1 e fl))"
    by (simp_all add: inj_on_diff)
  then show ?thesis by (simp add: distinct_map)
qed

lemma in_flight_replace:
  assumes b: "in_flight_inv s fl" and mem: "(rid, cid, ph) \<in> set fl"
    and others: "\<And>k. k \<noteq> rid \<Longrightarrow> map_of (chartRequests s') k = map_of (chartRequests s) k"
    and entry: "map_of (chartRequests s') rid = Some r'"
    and st: "status r' = phase_status ph'"
  shows "in_flight_inv s' (remove1 (rid, cid, ph) fl @ [(rid, cid, ph')])"
proof -
  from b have d: "distinct (map fst fl)" by (simp add: in_flight_inv_def)
  have rest: "fst e \<noteq> rid \<and> e \<in> set fl" if "e \<in> set (remove1 (rid, cid, ph) fl)" for e
    using remove1_key [OF d mem that] by simp
  have "rid \<notin> fst ` set (remove1 (rid, cid, ph) fl)"
    using rest by auto
  with distinct_map_fst_remove1 [OF d, of "(rid, cid, ph)"]
  have d': "distinct (map fst (remove1 (rid, cid, ph) fl @ [(rid, cid, ph')]))"
    by simp
  have "\<exists>r. map_of (chartRequests s') (fst e) = Some r \<and> status r = phase_status (snd (snd e))"
    if "e \<in> set (remove1 (rid, cid, ph) fl @ [(rid, cid, ph')])" for e
  proof (cases "e = (rid, cid, ph')")
    case True
    with entry st show ?thesis by simp
  next
    case False
    with that have "e \<in> set (remove1 (rid, cid, ph) fl)" by simp
    from rest [OF this] have ne: "fst e \<noteq> rid" and e: "e \<in> set fl" by simp_all
    from b e have "\<exists>r. map_of (chartRequests s) (fst e) = Some r
                      \<and> status r = phase_status (snd (snd e))"
      unfolding in_flight_inv_def by blast
    with others [OF ne] show ?thesis by simp
  qed
  with d' show ?thesis unfolding in_flight_inv_def by blast
qed

lemma keys_inv_same:
  assumes "keys_inv s" and "fst ` set (chartRequests s') = fst ` set (chartRequests s)"
    and "currentChartId s' = currentChartId s"
  shows "keys_inv s'"
  using assms by (simp add: keys_inv_def)

lemma run_inv_create:
  assumes inv: "run_inv s fl" and run: "createChartRequest cfg now s = (cr, s')"
  shows "run_inv s' (fl @ [(requestId cr, cid, Created cfg)])"
proof -
  from inv have a: "events_covered s" and b: "in_flight_inv s fl" and c: "keys_inv s"
    by (simp_all add: run_inv_def)
  define rid where "rid = requestId cr"
  from run have id: "rid = ''req_'' @ show_nat now @ ''_'' @ show_nat (currentChartId s)"
    and pend: "status cr = ''pending''"
    and led0: "chartRequests s' = AList.update rid cr (chartRequests s)"
    and cur: "currentChartId s' = Suc (currentChartId s)"
    and resp: "responses s' = responses s"
    by (auto simp add: createChartRequest_def Let_def rid_def)
  have led: "map_of (chartRequests s') = (map_of (chartRequests s))(rid \<mapsto> cr)"
    by (simp add: led0 update_conv')
  have keys: "fst ` set (chartRequests s') = insert rid (fst ` set (chartRequests s))"
    by (simp add: led0 dom_update)
  have fresh: "map_of (chartRequests s) rid = None"
    unfolding id using c by (rule fresh_requestId)
  have streams: "DataLine d \<in> set (written (responses s' h)) \<Longrightarrow>
           DataLine d \<in> set (written (responses s h))
           \<or> (ed_requestId d = rid \<and> ed_type d \<in> {})" for h d
    by (simp add: resp)
  have "events_covered s'"
  proof (rule events_covered_step [OF a streams, where r' = cr])
    show "k \<noteq> rid \<Longrightarrow> map_of (chartRequests s') k = map_of (chartRequests s) k" for k
      by (simp add: led)
    show "map_of (chartRequests s') rid = Some cr" by (simp add: led)
    show "t \<in> {} \<Longrightarrow> status_covers t (status cr)" for t
      by simp
    show "map_of (chartRequests s) rid = Some r \<Longrightarrow> status_covers t (status r)
            \<Longrightarrow> status_covers t (status cr)" for r t
      by (simp add: fresh)
  qed
  moreover have "in_flight_inv s' (fl @ [(rid, cid, Created cfg)])"
  proof -
    have notin: "rid \<notin> fst ` set fl"
    proof
      assume "rid \<in> fst ` set fl"
      then obtain e where "e \<in> set fl" and "fst e = rid" by auto
      with b have "map_of (chartRequests s) rid \<noteq> None"
        unfolding in_flight_inv_def by fastforce
      with fresh show False by simp
    qed
    have old: "\<exists>r. map_of (chartRequests s') (fst e) = Some r
                   \<and> status r = phase_status (snd (snd e))"
      if "e \<in> set fl" for e
    proof -
      from that notin have "fst e \<noteq> rid" by auto
      with that b show ?thesis unfolding in_flight_inv_def by (simp add: led)
    qed
    from b have "distinct (map fst fl)" by (simp add: in_flight_inv_def)
    with notin old pend show ?thesis
      by (auto simp add: in_flight_inv_def led)
  qed
  moreover have "keys_inv s'"
    unfolding keys_inv_def keys cur
  proof
    fix k assume "k \<in> insert rid (fst ` set (chartRequests s))"
    then show "\<exists>t i. k = ''req_'' @ show_nat t @ ''_'' @ show_nat i \<and> i < Suc (currentChartId s)"
    proof
      assume "k = rid"
      with id show ?thesis by blast
    next
      assume "k \<in> fst ` set (chartRequests s)"
      with c obtain t i where "k = ''req_'' @ show_nat t @ ''_'' @ show_nat i"
        and "i < currentChartId s" unfolding keys_inv_def by blast
      then have "k = ''req_'' @ show_nat t @ ''_'' @ show_nat i \<and> i < Suc (currentChartId s)"
        by simp
      then show ?thesis by blast
    qed
  qed
  ultimately show ?thesis by (simp add: run_inv_def rid_def)
qed

lemma run_inv_start:
  assumes inv: "run_inv s fl" and fl: "(rid, cid, Created cfg) \<in> set fl"
  shows "run_inv (route_started cfg rid cid now s)
           (remove1 (rid, cid, Created cfg) fl @ [(rid, cid, Started)])"
proof -
  let ?s' = "route_started cfg rid cid now s"
  from inv have a: "events_covered s" and b: "in_flight_inv s fl" and c: "keys_inv s"
    by (simp_all add: run_inv_def)
  from b fl obtain r where r: "map_of (chartRequests s) rid = Some r"
    and pend: "status r = ''pending''"
    unfolding in_flight_inv_def by fastforce
  from r have known: "rid \<in> fst ` set (chartRequests s)"
    by (metis map_of_eq_None_iff option.distinct(1))
  let ?r' = "r\<lparr>status := ''processing''\<rparr>"
  have led0: "chartRequests ?s' = AList.update rid ?r' (chartRequests s)"
    by (simp add: route_started_def updateChartRequest_def r spread_def Let_def)
  have led: "map_of (chartRequests ?s') = (map_of (chartRequests s))(rid \<mapsto> ?r')"
    by (simp add: led0 update_conv')
  have keys: "fst ` set (chartRequests ?s') = fst ` set (chartRequests s)"
    using known by (auto simp add: led0 dom_update)
  have cur: "currentChartId ?s' = currentChartId s"
    by (simp add: route_started_def updateChartRequest_def r Let_def)
  have resp: "responses ?s'
      = responses (sendEvent_if cid ''request''
                     (''Chart generation started for '' @ cfg_symbol cfg) rid None now s)"
    by (simp add: route_started_def updateChartRequest_def r Let_def)
  have streams: "DataLine d \<in> set (written (responses ?s' h)) \<Longrightarrow>
           DataLine d \<in> set (written (responses s h))
           \<or> (ed_requestId d = rid \<and> ed_type d \<in> {''request''})" for h d
    unfolding resp by (auto dest!: DataLine_sendEvent_if)
  have others: "k \<noteq> rid \<Longrightarrow> map_of (chartRequests ?s') k = map_of (chartRequests s) k" for k
    by (simp add: led)
  have entry: "map_of (chartRequests ?s') rid = Some ?r'" by (simp add: led)
  have "events_covered ?s'"
  proof (rule events_covered_step [OF a streams others entry])
    show "t \<in> {''request''} \<Longrightarrow> status_covers t (status ?r')" for t
      by (auto simp add: status_covers_def)
    show "map_of (chartRequests s) rid = Some r0 \<Longrightarrow> status_covers t (status r0)
            \<Longrightarrow> status_covers t (status ?r')" for r0 t
      using r pend by (auto simp add: status_covers_def split: if_splits)
  qed
  moreover have "in_flight_inv ?s' (remove1 (rid, cid, Created cfg) fl @ [(rid, cid, Started)])"
    by (rule in_flight_replace [OF b fl others entry]) simp_all
  moreover have "keys_inv ?s'"
    using c keys cur by (rule keys_inv_same)
  ultimately show ?thesis by (simp add: run_inv_def)
qed

lemma run_inv_begin:
  assumes inv: "run_inv s fl" and fl: "(rid, cid, Started) \<in> set fl"
  shows "run_inv (generateChart_begin rid cid now s)
           (remove1 (rid, cid, Started) fl @ [(rid, cid, Waiting now)])"
proof -
  let ?s' = "generateChart_begin rid cid now s"
  from inv have a: "events_covered s" and b: "in_flight_inv s fl" and c: "keys_inv s"
    by (simp_all add: run_inv_def)
  from b fl obtain r where r: "map_of (chartRequests s) rid = Some r"
    and proc: "status r = ''processing''"
    unfolding in_flight_inv_def by fastforce
  have led: "chartRequests ?s' = chartRequests s"
    by simp
  have cur: "currentChartId ?s' = currentChartId s"
    by (simp add: generateChart_begin_def Let_def)
  have streams: "DataLine d \<in> set (written (responses ?s' h)) \<Longrightarrow>
           DataLine d \<in> set (written (responses s h))
           \<or> (ed_requestId d = rid \<and> ed_type d \<in> {''progress''})" for h d
    by (auto simp add: generateChart_begin_def Let_def dest!: DataLine_sendEvent_if)
  have others: "k \<noteq> rid \<Longrightarrow> map_of (chartRequests ?s') k = map_of (chartRequests s) k" for k
    by (simp add: led)
  have entry: "map_of (chartRequests ?s') rid = Some r" by (simp add: led r)
  have "events_covered ?s'"
  proof (rule events_covered_step [OF a streams others entry])
    show "t \<in> {''progress''} \<Longrightarrow> status_covers t (status r)" for t
      by (auto simp add: status_covers_def proc)
    show "map_of (chartRequests s) rid = Some r0 \<Longrightarrow> status_covers t (status r0)
            \<Longrightarrow> status_covers t (status r)" for r0 t
      by (simp add: r)
  qed
  moreover have "in_flight_inv ?s' (remove1 (rid, cid, Started) fl @ [(rid, cid, Waiting now)])"
    by (rule in_flight_replace [OF b fl others entry]) (simp_all add: proc)
  moreover have "keys_inv ?s'"
    using c by (rule keys_inv_same) (simp_all add: led cur)
  ultimately show ?thesis by (simp add: run_inv_def)
qed

section \<open>The runs after the upstream call\<close>

lemma run_inv_head:
  assumes inv: "run_inv s fl" and fl: "(rid, cid, Waiting st) \<in> set fl"
  shows "run_inv (generateChart_head outcome rid cid now s) fl"
proof -
  let ?s' = "generateChart_head outcome rid cid now s"
  from inv have a: "events_covered s" and b: "in_flight_inv s fl" and c: "keys_inv s"
    by (simp_all add: run_inv_def)
  from b fl obtain r where r: "map_of (chartRequests s) rid = Some r"
    and proc: "status r = ''processing''"
    unfolding in_flight_inv_def by fastforce
  have led: "chartRequests ?s' = chartRequests s"
    by (cases outcome) (simp_all add: generateChart_head_def)
  have cur: "currentChartId ?s' = currentChartId s"
    by (cases outcome) (simp_all add: generateChart_head_def)
  have streams: "DataLine d \<in> set (written (responses ?s' h)) \<Longrightarrow>
           DataLine d \<in> set (written (responses s h))
           \<or> (ed_requestId d = rid \<and> ed_type d \<in> {''progress''})" for h d
    by (cases outcome) (auto simp add: generateChart_head_def dest!: DataLine_sendEvent_if)
  have "events_covered ?s'"
  proof (rule events_covered_step [OF a streams, where r' = r])
    show "map_of (chartRequests ?s') rid = Some r" by (simp add: led r)
    show "t \<in> {''progress''} \<Longrightarrow> status_covers t (status r)" for t
      by (auto simp add: status_covers_def proc)
    show "map_of (chartRequests s) rid = Some r0 \<Longrightarrow> status_covers t (status r0)
            \<Longrightarrow> status_covers t (status r)" for r0 t
      by (simp add: r)
  qed (simp_all add: led)
  moreover have "in_flight_inv ?s' fl"
    using b by (simp add: in_flight_inv_def led)
  moreover have "keys_inv ?s'"
    using c by (simp add: keys_inv_def led cur)
  ultimately show ?thesis by (simp add: run_inv_def)
qed

lemma generateChart_body_frame:
  "chartRequests (snd (generateChart_body outcome rid cid st now el s)) = chartRequests s"
  "currentChartId (snd (generateChart_body outcome rid cid st now el s)) = currentChartId s"
  by (cases outcome;
      simp add: generateChart_body_def generateChart_catch_def generateChart_success_def Let_def)+

lemma res_success_generateChart_body:
  "res_success (fst (generateChart_body outcome rid cid st now el s))
     = (case outcome of Json_body u b \<Rightarrow> True | Png_body b \<Rightarrow> True | _ \<Rightarrow> False)"
  by (cases outcome)
    (simp_all add: generateChart_body_def generateChart_catch_def generateChart_success_def
      Let_def)

lemma DataLine_generateChart_body:
  "DataLine d \<in> set (written (responses (snd (generateChart_body outcome rid cid st now el s)) h))
   \<Longrightarrow> DataLine d \<in> set (written (responses s h))
       \<or> (ed_requestId d = rid
          \<and> ed_type d = (if res_success (fst (generateChart_body outcome rid cid st now el s))
                         then ''success'' else ''error''))"
  by (cases outcome)
    (auto simp add: generateChart_body_def generateChart_catch_def generateChart_success_def
      Let_def dest!: DataLine_sendEvent_if)

lemma generate_then_frame:
  "responses (generate_then result rid now s) = responses s"
  "currentChartId (generate_then result rid now s) = currentChartId s"
  by (simp_all add: generate_then_def updateChartRequest_def Let_def split: option.splits)

lemma generate_then_ledger:
  assumes "map_of (chartRequests s) rid = Some r"
  shows "\<exists>r'. map_of (chartRequests (generate_then result rid now s))
                = (map_of (chartRequests s))(rid \<mapsto> r')
             \<and> status r' = (if res_success result then ''completed'' else ''failed'')"
    and "fst ` set (chartRequests (generate_then result rid now s)) = fst ` set (chartRequests s)"
proof -
  from assms have known: "rid \<in> fst ` set (chartRequests s)"
    by (metis map_of_eq_None_iff option.distinct(1))
  show "\<exists>r'. map_of (chartRequests (generate_then result rid now s))
                = (map_of (chartRequests s))(rid \<mapsto> r')
             \<and> status r' = (if res_success result then ''completed'' else ''failed'')"
    using assms
    by (auto simp add: generate_then_def updateChartRequest_def update_conv' spread_def Let_def)
  show "fst ` set (chartRequests (generate_then result rid now s)) = fst ` set (chartRequests s)"
    using assms known
    by (auto simp add: generate_then_def updateChartRequest_def dom_update Let_def)
qed

lemma run_inv_finish:
  assumes inv: "run_inv s fl" and fl: "(rid, cid, Waiting st) \<in> set fl"
  shows "run_inv (generate_finish outcome rid cid st now el s)
           (remove1 (rid, cid, Waiting st) fl)"
proof -
  let ?b = "generateChart_body outcome rid cid st now el s"
  let ?s' = "generate_then (fst ?b) rid now (snd ?b)"
  let ?T = "{if res_success (fst ?b) then ''success'' else ''error''}"
  have fin: "generate_finish outcome rid cid st now el s = ?s'"
    by (simp add: generate_finish_def split_beta)
  from inv have a: "events_covered s" and b: "in_flight_inv s fl" and c: "keys_inv s"
    by (simp_all add: run_inv_def)
  from b fl obtain r where r: "map_of (chartRequests s) rid = Some r"
    and proc: "status r = ''processing''"
    unfolding in_flight_inv_def by fastforce
  have r1: "map_of (chartRequests (snd ?b)) rid = Some r"
    by (simp add: generateChart_body_frame r)
  from generate_then_ledger(1) [OF r1, of "fst ?b" now]
  obtain r' where led: "map_of (chartRequests ?s') = (map_of (chartRequests s))(rid \<mapsto> r')"
    and terminal: "status r' = (if res_success (fst ?b) then ''completed'' else ''failed'')"
    by (auto simp add: generateChart_body_frame)
  have keys: "fst ` set (chartRequests ?s') = fst ` set (chartRequests s)"
    using generate_then_ledger(2) [OF r1, of "fst ?b" now] by (simp add: generateChart_body_frame)
  have cur: "currentChartId ?s' = currentChartId s"
    by (simp add: generate_then_frame generateChart_body_frame)
  have streams: "DataLine d \<in> set (written (responses ?s' h)) \<Longrightarrow>
           DataLine d \<in> set (written (responses s h))
           \<or> (ed_requestId d = rid \<and> ed_type d \<in> ?T)" for h d
    using DataLine_generateChart_body [of d outcome rid cid st now el s h]
    by (simp add: generate_then_frame)
  have "events_covered ?s'"
  proof (rule events_covered_step [OF a streams, where r' = r'])
    show "k \<noteq> rid \<Longrightarrow> map_of (chartRequests ?s') k = map_of (chartRequests s) k" for k
      by (simp add: led)
    show "map_of (chartRequests ?s') rid = Some r'" by (simp add: led)
    show "t \<in> ?T \<Longrightarrow> status_covers t (status r')" for t
      by (auto simp add: status_covers_def terminal split: if_splits)
    show "map_of (chartRequests s) rid = Some r0 \<Longrightarrow> status_covers t (status r0)
            \<Longrightarrow> status_covers t (status r')" for r0 t
      using r proc by (auto simp add: status_covers_def terminal split: if_splits)
  qed
  moreover have "in_flight_inv ?s' (remove1 (rid, cid, Waiting st) fl)"
  proof -
    from b have d: "distinct (map fst fl)" by (simp add: in_flight_inv_def)
    have "\<exists>r. map_of (chartRequests ?s') (fst e) = Some r
              \<and> status r = phase_status (snd (snd e))"
      if "e \<in> set (remove1 (rid, cid, Waiting st) fl)" for e
    proof -
      from remove1_key [OF d fl that] have "fst e \<noteq> rid" and "e \<in> set fl" by simp_all
      with b show ?thesis
        unfolding in_flight_inv_def by (simp add: led)
    qed
    with distinct_map_fst_remove1 [OF d] show ?thesis by (simp add: in_flight_inv_def)
  qed
  moreover have "keys_inv ?s'"
    using c by (simp add: keys_inv_def keys cur)
  ultimately show ?thesis by (simp add: run_inv_def fin)
qed

lemma observable_run_inv: "observable s fl \<Longrightarrow> run_inv s fl"
proof (induction rule: observable.induct)
  case o_init
  show ?case
    by (simp add: run_inv_def events_covered_def in_flight_inv_def keys_inv_def init_state_def
        new_Response_def)
next
  case (o_invalid s fl body clientId now issues s')
  from route_generate_Bad_request [OF o_invalid.hyps(2)] o_invalid.IH
  show ?case by simp
next
  case (o_create s fl body config now chartRequest s' clientId)
  from o_create.IH o_create.hyps(3) show ?case by (rule run_inv_create)
qed (simp_all add: run_inv_addClient run_inv_handleSSEConnection run_inv_on_close
      run_inv_heartbeat run_inv_stream run_inv_start run_inv_begin run_inv_head run_inv_finish)

text \<open>
  C3. In every observable state, that is in every state in which a reader can query the
  ledger, each event that any stream has received for a chart request finds the ledger
  entry of the request already at the status the event announces: \<^verbatim>\<open>completed\<close> for a
  \<^verbatim>\<open>success\<close> event, \<^verbatim>\<open>failed\<close> for an \<^verbatim>\<open>error\<close> event, and a status past \<^verbatim>\<open>pending\<close>
  for every event, the \<^verbatim>\<open>request\<close> event that announces the start included. (Within a
  run the event is written first and the ledger after it, with no wait in between.)
\<close>

theorem ledger_covers_observed_events:
  assumes "observable s fl" and "DataLine d \<in> set (written (responses s h))"
    and "ed_requestId d \<noteq> ''system''"
  shows "\<exists>r. getChartRequest (ed_requestId d) s = Some r
           \<and> (ed_type d = ''success'' \<longrightarrow> status r = ''completed'')
           \<and> (ed_type d = ''error'' \<longrightarrow> status r = ''failed'')
           \<and> (status r = ''processing'' \<or> status r = ''completed'' \<or> status r = ''failed'')"
proof -
  from assms(1) have "events_covered s"
    using observable_run_inv by (simp add: run_inv_def)
  with assms(2,3) obtain r where r: "map_of (chartRequests s) (ed_requestId d) = Some r"
    and c: "status_covers (ed_type d) (status r)"
    unfolding events_covered_def by blast
  from c have "(ed_type d = ''success'' \<longrightarrow> status r = ''completed'')
           \<and> (ed_type d = ''error'' \<longrightarrow> status r = ''failed'')
           \<and> (status r = ''processing'' \<or> status r = ''completed'' \<or> status r = ''failed'')"
    by (auto simp add: status_covers_def split: if_splits)
  with r show ?thesis by (simp add: getChartRequest_def)
qed

lemma route_generate_example:
  "route_generate example_body (Some ''c1'') 5 one_session
     = (Ok_processing ''req_5_1'', processing_example)"
proof -
  have "fst (route_generate example_body (Some ''c1'') 5 one_session) = Ok_processing ''req_5_1''"
    by (simp add: route_generate_def parse_example generate_accept_def createChartRequest_def
        split_beta Let_def one_session_fields show_nat_5_1)
  then show ?thesis
    by (simp add: processing_example_def prod_eq_iff)
qed

lemma observable_settled_example: "observable settled_example []"
proof -
  let ?e = "\<lambda>ph. (''req_5_1'', Some ''c1'', ph)"
  obtain cr s1 where c: "createChartRequest example_config 5 one_session = (cr, s1)"
    by (cases "createChartRequest example_config 5 one_session")
  then have rid: "requestId cr = ''req_5_1''"
    by (auto simp add: createChartRequest_def Let_def one_session_fields show_nat_5_1)
  have "observable one_session []"
    unfolding one_session_def by (intro observable.intros)
  from observable.o_create [OF this parse_example c]
  have "observable s1 [?e (Created example_config)]"
    by (simp add: rid)
  then have "observable (route_started example_config ''req_5_1'' (Some ''c1'') 5 s1)
               (remove1 (?e (Created example_config)) [?e (Created example_config)] @ [?e Started])"
    by (rule observable.o_start) simp
  then have "observable (route_started example_config ''req_5_1'' (Some ''c1'') 5 s1) [?e Started]"
    by simp
  then have "observable (generateChart_begin ''req_5_1'' (Some ''c1'') 5
                 (route_started example_config ''req_5_1'' (Some ''c1'') 5 s1))
               (remove1 (?e Started) [?e Started] @ [?e (Waiting 5)])"
    by (rule observable.o_begin) simp
  moreover from route_generate_runs [OF parse_example c, of "Some ''c1''"] route_generate_example
  have "generateChart_begin ''req_5_1'' (Some ''c1'') 5
          (route_started example_config ''req_5_1'' (Some ''c1'') 5 s1) = processing_example"
    by (simp add: rid)
  ultimately have fl: "observable processing_example [?e (Waiting 5)]"
    by simp
  have mem: "?e (Waiting 5) \<in> set [?e (Waiting 5)]" by simp
  from observable.o_head [OF fl mem, of "Png_body ''iVBOR''" 8]
  have "observable (generateChart_head (Png_body ''iVBOR'') ''req_5_1'' (Some ''c1'') 8
                      processing_example) [?e (Waiting 5)]" .
  from observable.o_finish [OF this mem, of "Png_body ''iVBOR''" 9 "''0.0''"]
  show ?thesis by (simp add: settled_example_def)
qed

lemma settled_example_stream:
  "DataLine success_event \<in> set (written (responses settled_example 7))"
proof -
  let ?cl = "\<lparr>client_id = ''c1'', response = 7, lastEventId = None\<rparr>"
  have reg: "map_of (clients processing_example) ''c1'' = Some ?cl"
    by (simp add: processing_example_fields one_session_fields)
  have fine: "\<not> writeThrows (responses processing_example (response ?cl))"
    by (simp add: processing_example_fields)
  note mid = still_delivered [OF reg fine, of "''progress''" "''Processing chart data...''"
      "''req_5_1''" None 8]
  have "written (responses settled_example 7)
          = written (responses (sendEvent ''c1'' ''progress'' ''Processing chart data...''
                                  ''req_5_1'' None 8 processing_example) 7)
            @ [EventLine ''success'', DataLine success_event]"
    by (simp add: settled_example_def generate_finish_def generateChart_body_def
        generateChart_head_def generateChart_success_def sendEvent_if_def split_beta Let_def
        generate_then_frame sendEvent_delivered(4) [OF mid] success_event_def)
  then show ?thesis by simp
qed

theorem ledger_covers_observed_events_witness:
  "observable settled_example []
   \<and> DataLine success_event \<in> set (written (responses settled_example 7))
   \<and> ed_requestId success_event \<noteq> ''system''
   \<and> ed_type success_event = ''success''
   \<and> map_option status (getChartRequest ''req_5_1'' settled_example) = Some ''completed''"
proof -
  have rid: "ed_requestId success_event \<noteq> ''system''"
    and rid': "ed_requestId success_event = ''req_5_1''"
    and ty: "ed_type success_event = ''success''"
    by (simp_all add: success_event_def)
  from ledger_covers_observed_events [OF observable_settled_example settled_example_stream rid]
  have "map_option status (getChartRequest ''req_5_1'' settled_example) = Some ''completed''"
    by (auto simp add: rid' ty)
  with observable_settled_example settled_example_stream rid ty show ?thesis by simp
qed

end
